theory Spec2Isabelle
  imports Main
begin

section \<open>Strings as Python sees them\<close>

text \<open>
  A Python \<open>str\<close> is modelled as a HOL \<open>string\<close>, each \<open>char\<close> standing for one
  code point below 256. Characters that cannot be written inside a HOL string literal
  get a name.
\<close>

definition bslash :: char where "bslash = CHR 0x5C"
definition dquote :: char where "dquote = CHR 0x22"
definition squote :: char where "squote = CHR 0x27"
definition newline :: char where "newline = CHR 0x0A"

text \<open>\<open>str.isspace\<close> on one code point below 256; it is also what \<open>\\s\<close> matches.\<close>

definition isspace :: "char \<Rightarrow> bool" where
  "isspace c \<longleftrightarrow>
     c \<in> set [CHR 0x09, CHR 0x0A, CHR 0x0B, CHR 0x0C, CHR 0x0D, CHR 0x1C, CHR 0x1D,
              CHR 0x1E, CHR 0x1F, CHR 0x20, CHR 0x85, CHR 0xA0]"

text \<open>\<open>str.strip()\<close>: leading and trailing whitespace removed.\<close>

definition strip :: "string \<Rightarrow> string" where
  "strip s = rev (dropWhile isspace (rev (dropWhile isspace s)))"

text \<open>\<open>sep.join(xs)\<close>.\<close>

fun join :: "string \<Rightarrow> string list \<Rightarrow> string" where
  "join sep [] = []"
| "join sep [x] = x"
| "join sep (x # y # ys) = x @ sep @ join sep (y # ys)"

text \<open>\<open>s.find(c)\<close> for a single character \<open>c\<close>: the first index, \<open>None\<close> for -1.\<close>

fun str_find :: "string \<Rightarrow> char \<Rightarrow> nat option" where
  "str_find [] c = None"
| "str_find (x # xs) c = (if x = c then Some 0 else map_option Suc (str_find xs c))"


section \<open>splitByCommas\<close>

record split_state =
  sp_out :: "string list"
  sp_current :: string
  sp_matchingQuote :: string
  sp_insideQuotes :: bool
  sp_nextIsLiteral :: bool

definition openQuotes :: string where
  "openQuotes = [dquote, squote, CHR ''<'', CHR ''('', CHR ''{'']"

definition closeQuotes :: string where
  "closeQuotes = [dquote, squote, CHR ''>'', CHR '')'', CHR ''}'']"

definition split_init :: split_state where
  "split_init = \<lparr>sp_out = [], sp_current = [], sp_matchingQuote = [],
                  sp_insideQuotes = False, sp_nextIsLiteral = False\<rparr>"

text \<open>One iteration of \<open>for char in str\<close>.\<close>

definition split_step :: "split_state \<Rightarrow> char \<Rightarrow> split_state" where
  "split_step st c =
     (if sp_nextIsLiteral st then
        st\<lparr>sp_current := sp_current st @ [c], sp_nextIsLiteral := False\<rparr>
      else if sp_insideQuotes st then
        (if c = bslash then st\<lparr>sp_nextIsLiteral := True\<rparr>
         else if [c] = sp_matchingQuote st then
           st\<lparr>sp_current := sp_current st @ [c], sp_insideQuotes := False\<rparr>
         else st\<lparr>sp_current := sp_current st @ [c]\<rparr>)
      else
        (if c = CHR '','' then
           st\<lparr>sp_out := sp_out st @ [strip (sp_current st)], sp_current := []\<rparr>
         else
           (case str_find openQuotes c of
              None \<Rightarrow> st\<lparr>sp_current := sp_current st @ [c]\<rparr>
            | Some quoteIndex \<Rightarrow>
                st\<lparr>sp_current := sp_current st @ [c],
                   sp_matchingQuote := [closeQuotes ! quoteIndex],
                   sp_insideQuotes := True\<rparr>)))"

definition split_scan :: "string \<Rightarrow> split_state" where
  "split_scan s = foldl split_step split_init s"

definition splitByCommas :: "string \<Rightarrow> string list" where
  "splitByCommas s =
     (if s = [] then []
      else let st = split_scan s in sp_out st @ [strip (sp_current st)])"

subsection \<open>A grammar of argument strings, to state what splitByCommas computes\<close>









text \<open>The scanner is outside every section and no escape is pending.\<close>

definition outside :: "split_state \<Rightarrow> bool" where
  "outside st \<longleftrightarrow> \<not> sp_insideQuotes st \<and> \<not> sp_nextIsLiteral st"



text \<open>
  The characters of the input that the scanner keeps: all of them but each backslash
  it reads as an escape (inside a section, with no escape pending).
\<close>

fun kept :: "split_state \<Rightarrow> string \<Rightarrow> string" where
  "kept st [] = []"
| "kept st (c # cs) =
     (if \<not> sp_nextIsLiteral st \<and> sp_insideQuotes st \<and> c = bslash
      then kept (split_step st c) cs
      else c # kept (split_step st c) cs)"

section \<open>Settings and the state of a command\<close>

text \<open>
  \<open>pluginSettings\<close>: the keys the modelled code reads, each at the type the code
  expects. A \<open>bool option\<close> or \<open>string option\<close> is \<open>None\<close> when the key is absent,
  for the keys where the code tells an absent value from a false or empty one.
\<close>

datatype align_setting = AlignDeep | AlignShallow | AlignTrue | AlignOff

datatype spacer_setting = SpacerTrue | SpacerAfterDescription | SpacerOff

text \<open>An entry of \<open>notation_map\<close>: a dict in which each of the four keys may be absent.\<close>

record notation_rule =
  rule_prefix :: "string option"
  rule_regex :: "string option"
  rule_type :: "string option"
  rule_tags :: "string list option"

record settings =
  simple_mode :: bool
  indentation_spaces :: int
  align_tags :: align_setting
  per_section_indent :: bool
  return_tag :: "string option"
  min_spaces_between_columns :: int
  newline_after_block :: bool
  spacer_between_sections :: spacer_setting
  function_description :: "bool option"
  autoadd_method_tag :: bool
  extra_tags_go_after :: bool
  extra_tags :: "string list"
  prefer_param :: bool
  param_description :: bool
  param_name :: bool
  return_description :: "bool option"
  notation_map :: "notation_rule list"
  lower_case_primitives :: bool
  short_primitives :: bool
  override_js_var :: string

datatype dialect = Javascript | Coffee

text \<open>The two strings that \<open>substituteVariables\<close> reads from the clock.\<close>

record clock =
  clock_date :: string
  clock_datetime :: string

text \<open>What \<open>initialize\<close> leaves in the command object.\<close>

record command =
  cmd_settings :: settings
  cmd_dialect :: dialect
  cmd_trailingString :: string
  cmd_clock :: clock

definition indentSpaces :: "command \<Rightarrow> string" where
  "indentSpaces cmd = replicate (nat (max 0 (indentation_spaces (cmd_settings cmd)))) (CHR '' '')"

definition deepAlignTags :: "command \<Rightarrow> bool" where
  "deepAlignTags cmd \<longleftrightarrow> align_tags (cmd_settings cmd) = AlignDeep"

definition shallowAlignTags :: "command \<Rightarrow> bool" where
  "shallowAlignTags cmd \<longleftrightarrow> align_tags (cmd_settings cmd) \<in> set [AlignShallow, AlignTrue]"

definition commentCloser :: "dialect \<Rightarrow> string" where
  "commentCloser d = (case d of Javascript \<Rightarrow> '' */'' | Coffee \<Rightarrow> ''###'')"


section \<open>Placeholders\<close>

definition isdigit :: "char \<Rightarrow> bool" where
  "isdigit c \<longleftrightarrow> c \<in> set ''0123456789''"

definition startswith :: "string \<Rightarrow> string \<Rightarrow> bool" where
  "startswith s p \<longleftrightarrow> take (length p) s = p"

text \<open>
  A match of \<open>\$\{\d+:[^}]+\}\<close> at the start of the string: the digits, the text
  between the colon and the brace, and what follows the match.
\<close>

definition match_tabstop :: "string \<Rightarrow> (string \<times> string \<times> string) option" where
  "match_tabstop s =
     (if startswith s ''${'' then
        (let ds = takeWhile isdigit (drop 2 s); r = dropWhile isdigit (drop 2 s) in
         if ds \<noteq> [] \<and> startswith r '':'' then
           (let body = takeWhile (\<lambda>c. c \<noteq> CHR ''}'') (drop 1 r);
                rest = dropWhile (\<lambda>c. c \<noteq> CHR ''}'') (drop 1 r) in
            if body \<noteq> [] \<and> rest \<noteq> [] then Some (ds, body, drop 1 rest) else None)
         else None)
      else None)"

lemma match_tabstop_shorter:
  "match_tabstop s = Some (ds, body, rest) \<Longrightarrow> length rest < length s"
proof -
  assume a: "match_tabstop s = Some (ds, body, rest)"
  let ?r = "dropWhile isdigit (drop 2 s)"
  let ?t = "dropWhile (\<lambda>c. c \<noteq> CHR ''}'') (drop 1 ?r)"
  have "rest = drop 1 ?t" and "?t \<noteq> []" and s: "startswith s ''${''"
    using a by (auto simp: match_tabstop_def Let_def split: if_splits)
  then have "length rest < length ?t" by simp
  also have "\<dots> \<le> length (drop 1 ?r)" by (rule length_dropWhile_le)
  also have "\<dots> \<le> length ?r" by simp
  also have "\<dots> \<le> length (drop 2 s)" by (rule length_dropWhile_le)
  also have "\<dots> \<le> length s" by simp
  finally show ?thesis .
qed

text \<open>\<open>re.sub("[$][{]\\d+:([^}]+)[}]", "\\1", s)\<close>.\<close>

function unwrap_tabstops :: "string \<Rightarrow> string" where
  "unwrap_tabstops [] = []"
| "unwrap_tabstops (c # cs) =
     (case match_tabstop (c # cs) of
        Some (ds, body, rest) \<Rightarrow> body @ unwrap_tabstops rest
      | None \<Rightarrow> c # unwrap_tabstops cs)"
  by pat_completeness auto
termination
  by (relation "measure length") (auto dest: match_tabstop_shorter)

text \<open>\<open>s.replace('\$', '$')\<close>: the two characters backslash, dollar become a dollar.\<close>

fun unescape_dollar :: "string \<Rightarrow> string" where
  "unescape_dollar (a # b # r) =
     (if a = bslash \<and> b = CHR ''$'' then CHR ''$'' # unescape_dollar r
      else a # unescape_dollar (b # r))"
| "unescape_dollar r = r"

definition outputWidth :: "string \<Rightarrow> nat" where
  "outputWidth s = length (unescape_dollar (unwrap_tabstops s))"

text \<open>\<open>"%d" % n\<close> for a natural number.\<close>

definition digit_char :: "nat \<Rightarrow> char" where
  "digit_char d = ''0123456789'' ! d"

fun show_nat :: "nat \<Rightarrow> string" where
  "show_nat n = (if n < 10 then [digit_char n] else show_nat (n div 10) @ [digit_char (n mod 10)])"

declare show_nat.simps [simp del]




section \<open>alignTags\<close>

text \<open>\<open>s.split(" ")\<close>: cut at every single occurrence of the separator.\<close>

fun split_on :: "char \<Rightarrow> string \<Rightarrow> string list" where
  "split_on sep [] = [[]]"
| "split_on sep (c # cs) =
     (if c = sep then [] # split_on sep cs
      else (case split_on sep cs of [] \<Rightarrow> [[c]] | w # ws \<Rightarrow> (c # w) # ws))"

definition spaces :: "nat \<Rightarrow> string" where
  "spaces n = replicate n (CHR '' '')"

text \<open>\<open>returnTag\<close> of alignTags: \<open>None\<close> stands for \<open>False\<close>.\<close>

definition align_returnTag :: "settings \<Rightarrow> string option" where
  "align_returnTag S =
     (if per_section_indent S then
        Some (case return_tag S of None \<Rightarrow> ''@return''
              | Some t \<Rightarrow> if t = [] then ''@return'' else t)
      else None)"

text \<open>The first loop: the widths of the columns of every tag line that counts.\<close>

definition align_columns :: "string \<Rightarrow> string list" where
  "align_columns line =
     (if startswith line ''@author'' then [''@author''] else split_on (CHR '' '') line)"

definition align_widths :: "settings \<Rightarrow> string list \<Rightarrow> nat list list" where
  "align_widths S lines =
     map (\<lambda>line. map outputWidth (align_columns line))
       (filter (\<lambda>line. startswith line ''@'' \<and>
                  \<not> (case align_returnTag S of None \<Rightarrow> False
                     | Some t \<Rightarrow> startswith line t)) lines)"

text \<open>
  \<open>maxWidths\<close>: a list of \<open>maxCols\<close> zeros, of which the first column only (shallow) or
  every column (deep) is raised to the widest entry of that column.
\<close>

definition align_maxWidths :: "bool \<Rightarrow> nat list list \<Rightarrow> nat list" where
  "align_maxWidths shallow widths =
     (let maxCols = foldl max 0 (map length widths);
          cols = (if shallow then 1 else maxCols)
      in map (\<lambda>i. if i < cols
                   then foldl (\<lambda>m width. if i < length width then max m (width ! i) else m) 0 widths
                   else 0) [0..<maxCols])"

text \<open>\<open>maxWidths.get(partIndex, 0)\<close>.\<close>

definition width_get :: "nat list \<Rightarrow> nat \<Rightarrow> nat" where
  "width_get maxWidths i = (if i < length maxWidths then maxWidths ! i else 0)"

definition align_line :: "int \<Rightarrow> nat list \<Rightarrow> string \<Rightarrow> string" where
  "align_line minColSpaces maxWidths line =
     strip (concat (map (\<lambda>(partIndex, part).
        part @ spaces (nat minColSpaces) @ spaces (width_get maxWidths partIndex - outputWidth part))
        (enumerate 0 (split_on (CHR '' '') line))))"

definition alignable :: "string \<Rightarrow> bool" where
  "alignable line \<longleftrightarrow> startswith line ''@'' \<and> \<not> startswith line ''@author''"

definition alignTags :: "command \<Rightarrow> string list \<Rightarrow> string list" where
  "alignTags cmd lines =
     (let maxWidths = align_maxWidths (shallowAlignTags cmd) (align_widths (cmd_settings cmd) lines)
      in map (\<lambda>line. if alignable line
                      then align_line (min_spaces_between_columns (cmd_settings cmd)) maxWidths line
                      else line) lines)"


section \<open>substituteVariables\<close>

text \<open>A match of \<open>\{\{([^}]+)\}\}\<close> at the start of the string: the name and the rest.\<close>

definition match_variable :: "string \<Rightarrow> (string \<times> string) option" where
  "match_variable s =
     (if startswith s ''{{'' then
        (let name = takeWhile (\<lambda>c. c \<noteq> CHR ''}'') (drop 2 s);
             rest = dropWhile (\<lambda>c. c \<noteq> CHR ''}'') (drop 2 s) in
         if name \<noteq> [] \<and> startswith rest ''}}'' then Some (name, drop 2 rest) else None)
      else None)"

lemma match_variable_shorter:
  "match_variable s = Some (name, rest) \<Longrightarrow> length rest < length s"
proof -
  assume a: "match_variable s = Some (name, rest)"
  let ?t = "dropWhile (\<lambda>c. c \<noteq> CHR ''}'') (drop 2 s)"
  have "rest = drop 2 ?t" and "startswith ?t ''}}''"
    using a by (auto simp: match_variable_def Let_def split: if_splits)
  then have "length rest < length ?t" by (cases ?t) (auto simp: startswith_def)
  also have "\<dots> \<le> length (drop 2 s)" by (rule length_dropWhile_le)
  also have "\<dots> \<le> length s" by simp
  finally show ?thesis .
qed

definition getVar :: "clock \<Rightarrow> string \<Rightarrow> string" where
  "getVar clk varName =
     (if varName = ''datetime'' then clock_datetime clk
      else if varName = ''date'' then clock_date clk
      else ''{{'' @ varName @ ''}}'')"

function subLine :: "clock \<Rightarrow> string \<Rightarrow> string" where
  "subLine clk [] = []"
| "subLine clk (c # cs) =
     (case match_variable (c # cs) of
        Some (name, rest) \<Rightarrow> getVar clk name @ subLine clk rest
      | None \<Rightarrow> c # subLine clk cs)"
  by pat_completeness auto
termination
  by (relation "measure (\<lambda>(clk, s). length s)") (auto dest: match_variable_shorter)

definition substituteVariables :: "clock \<Rightarrow> string list \<Rightarrow> string list" where
  "substituteVariables clk lines = map (subLine clk) lines"


section \<open>fixTabStops\<close>

text \<open>
  \<open>re.sub("(\\$\\{)\\d+(:[^}]+\\})", swapTabs, line)\<close> with the counter threaded
  through: \<open>n\<close> is the last number the counter gave, the result holds the new line and
  the last number given after it.
\<close>

function swapTabs :: "nat \<Rightarrow> string \<Rightarrow> string \<times> nat" where
  "swapTabs n [] = ([], n)"
| "swapTabs n (c # cs) =
     (case match_tabstop (c # cs) of
        Some (ds, body, rest) \<Rightarrow>
          (case swapTabs (Suc n) rest of
             (r, n') \<Rightarrow> (''${'' @ show_nat (Suc n) @ '':'' @ body @ ''}'' @ r, n'))
      | None \<Rightarrow> (case swapTabs n cs of (r, n') \<Rightarrow> (c # r, n')))"
  by pat_completeness auto
termination
  by (relation "measure (\<lambda>(n, s). length s)") (auto dest: match_tabstop_shorter)

fun fixTabStops_from :: "nat \<Rightarrow> string list \<Rightarrow> string list" where
  "fixTabStops_from n [] = []"
| "fixTabStops_from n (line # lines) =
     (case swapTabs n line of (line', n') \<Rightarrow> line' # fixTabStops_from n' lines)"

definition fixTabStops :: "string list \<Rightarrow> string list" where
  "fixTabStops lines = fixTabStops_from 0 lines"

section \<open>createSnippet and generateSnippet\<close>

definition isalpha_ascii :: "char \<Rightarrow> bool" where
  "isalpha_ascii c \<longleftrightarrow>
     c \<in> set ''abcdefghijklmnopqrstuvwxyzABCDEFGHIJKLMNOPQRSTUVWXYZ''"

text \<open>\<open>re.match("^\\s*@([a-zA-Z]+)", line)\<close>: group 1, or \<open>None\<close>.\<close>

definition match_tag :: "string \<Rightarrow> string option" where
  "match_tag line =
     (let r = dropWhile isspace line in
      if startswith r ''@'' \<and> takeWhile isalpha_ascii (drop 1 r) \<noteq> []
      then Some (takeWhile isalpha_ascii (drop 1 r)) else None)"

text \<open>\<open>out.insert(idx, x)\<close> for \<open>idx \<le> len(out)\<close>.\<close>

definition list_insert :: "nat \<Rightarrow> 'a \<Rightarrow> 'a list \<Rightarrow> 'a list" where
  "list_insert idx x xs = take idx xs @ [x] @ drop idx xs"

text \<open>
  The loop of \<open>spacer_between_sections == True\<close>. It inserts into the list it
  enumerates: after an insertion at \<open>idx\<close> the line just read stands at \<open>idx + 1\<close>
  and is read once more, now with \<open>lastTag\<close> equal to its tag.
  \<open>fdFalse\<close> is \<open>function_description == False\<close>.
\<close>

definition spacer_inserts :: "bool \<Rightarrow> string option \<Rightarrow> string \<Rightarrow> bool" where
  "spacer_inserts fdFalse lastTag line \<longleftrightarrow>
     (case match_tag line of
        None \<Rightarrow> False
      | Some t \<Rightarrow> lastTag \<noteq> Some t \<and> (if fdFalse then lastTag \<noteq> None else True))"

function spacer_sections :: "bool \<Rightarrow> nat \<Rightarrow> string option \<Rightarrow> string list \<Rightarrow> string list" where
  "spacer_sections fdFalse idx lastTag lines =
     (if idx < length lines then
        (case match_tag (lines ! idx) of
           None \<Rightarrow> spacer_sections fdFalse (Suc idx) lastTag lines
         | Some t \<Rightarrow>
             if lastTag \<noteq> Some t then
               (if spacer_inserts fdFalse lastTag (lines ! idx)
                then spacer_sections fdFalse (Suc idx) (Some t) (list_insert idx [] lines)
                else spacer_sections fdFalse (Suc idx) (Some t) lines)
             else spacer_sections fdFalse (Suc idx) lastTag lines)
      else lines)"
  by pat_completeness auto
termination
proof (relation "measure (\<lambda>(fdFalse, idx, lastTag, lines).
    2 * (length lines - idx) +
    (if idx < length lines \<and> spacer_inserts fdFalse lastTag (lines ! idx) then 1 else 0))",
    goal_cases)
  case 1
  show ?case by simp
next
  case (2 fdFalse idx lastTag lines)
  then show ?case by (auto simp: spacer_inserts_def)
next
  case (3 fdFalse idx lastTag lines t)
  then have "list_insert idx [] lines ! Suc idx = lines ! idx"
    by (simp add: list_insert_def nth_append min_def)
  with 3 show ?case
    by (auto simp: spacer_inserts_def list_insert_def)
next
  case (4 fdFalse idx lastTag lines t)
  then show ?case by (auto simp: spacer_inserts_def split: option.splits)
next
  case (5 fdFalse idx lastTag lines t)
  then show ?case by (auto simp: spacer_inserts_def)
qed

declare spacer_sections.simps [simp del]

text \<open>The loop of \<open>spacer_between_sections == 'after_description'\<close>.\<close>

function spacer_after :: "nat \<Rightarrow> bool \<Rightarrow> string list \<Rightarrow> string list" where
  "spacer_after idx lastLineIsTag lines =
     (if idx < length lines then
        (case match_tag (lines ! idx) of
           None \<Rightarrow> spacer_after (Suc idx) lastLineIsTag lines
         | Some t \<Rightarrow>
             if \<not> lastLineIsTag then spacer_after (Suc idx) True (list_insert idx [] lines)
             else spacer_after (Suc idx) True lines)
      else lines)"
  by pat_completeness auto
termination
  by (relation "measure (\<lambda>(idx, lastLineIsTag, lines).
        2 * (length lines - idx) + (if lastLineIsTag then 0 else 1))")
     (auto simp: list_insert_def)

declare spacer_after.simps [simp del]

text \<open>\<open>if out:\<close> for a value that is \<open>None\<close> or a list.\<close>

definition truthy :: "'a list option \<Rightarrow> bool" where
  "truthy v \<longleftrightarrow> (case v of None \<Rightarrow> False | Some xs \<Rightarrow> xs \<noteq> [])"

definition snippet_line :: "command \<Rightarrow> string \<Rightarrow> string" where
  "snippet_line cmd line =
     [newline] @ '' *'' @ (if line \<noteq> [] then indentSpaces cmd @ line else [])"

definition createSnippet :: "command \<Rightarrow> string list option \<Rightarrow> string" where
  "createSnippet cmd v =
     (case v of
        Some lines \<Rightarrow>
          if lines \<noteq> [] then
            (let S = cmd_settings cmd;
                 spaced =
                   (if spacer_between_sections S = SpacerTrue then
                      spacer_sections (function_description S = Some False) 0 None lines
                    else if spacer_between_sections S = SpacerAfterDescription
                            \<and> function_description S = Some True then
                      spacer_after 0 False lines
                    else lines)
             in concat (map (snippet_line cmd) spaced))
          else [newline] @ '' *'' @ indentSpaces cmd @ ''${0:'' @ cmd_trailingString cmd @ ''}''
      | None \<Rightarrow> [newline] @ '' *'' @ indentSpaces cmd @ ''${0:'' @ cmd_trailingString cmd @ ''}'')
     @ [newline] @ commentCloser (cmd_dialect cmd)"

definition generateSnippet :: "command \<Rightarrow> string list option \<Rightarrow> bool \<Rightarrow> string" where
  "generateSnippet cmd v inline =
     (let v1 = (if truthy v then map_option (substituteVariables (cmd_clock cmd)) v else v);
          v2 = (if truthy v1 \<and> (shallowAlignTags cmd \<or> deepAlignTags cmd) \<and> \<not> inline
                then map_option (alignTags cmd) v1 else v1);
          v3 = (if truthy v2 then map_option fixTabStops v2 else v2)
      in if inline then
           (case v3 of
              Some (first # rest) \<Rightarrow> '' '' @ first @ '' */''
            | _ \<Rightarrow> '' $0 */'')
         else createSnippet cmd v3
              @ (if newline_after_block (cmd_settings cmd) then [newline] else []))"




text \<open>The settings of the test suite, and a command that uses them.\<close>

definition test_settings :: settings where
  "test_settings =
     \<lparr>simple_mode = False, indentation_spaces = 1, align_tags = AlignDeep,
      per_section_indent = False, return_tag = Some ''@return'',
      min_spaces_between_columns = 1, newline_after_block = False,
      spacer_between_sections = SpacerOff, function_description = Some True,
      autoadd_method_tag = False, extra_tags_go_after = False, extra_tags = [],
      prefer_param = True, param_description = True, param_name = True,
      return_description = Some True, notation_map = [],
      lower_case_primitives = False, short_primitives = False, override_js_var = []\<rparr>"

definition test_command :: command where
  "test_command =
     \<lparr>cmd_settings = test_settings, cmd_dialect = Javascript, cmd_trailingString = [],
      cmd_clock = \<lparr>clock_date = ''2017-01-01'', clock_datetime = ''2017-01-01T00:00:00+0000''\<rparr>\<rparr>"

section \<open>Notions used to state the properties of the snippet\<close>






section \<open>Exceptions and character classes\<close>

text \<open>
  The exceptions the modelled code can raise. A function that can raise returns
  \<open>pyerror + 'a\<close>, with \<open>Inl\<close> for the exception.
\<close>

datatype pyerror = IndexError | AttributeError | RegexError

definition isupper_ascii :: "char \<Rightarrow> bool" where
  "isupper_ascii c \<longleftrightarrow> c \<in> set ''ABCDEFGHIJKLMNOPQRSTUVWXYZ''"

definition islower_ascii :: "char \<Rightarrow> bool" where
  "islower_ascii c \<longleftrightarrow> c \<in> set ''abcdefghijklmnopqrstuvwxyz''"

text \<open>The identifier pattern \<open>[a-zA-Z_$][a-zA-Z_$0-9]*\<close>: its first and its later characters.\<close>

definition ident_start :: "char \<Rightarrow> bool" where
  "ident_start c \<longleftrightarrow> isalpha_ascii c \<or> c = CHR ''_'' \<or> c = CHR ''$''"

definition ident_char :: "char \<Rightarrow> bool" where
  "ident_char c \<longleftrightarrow> ident_start c \<or> isdigit c"

text \<open>
  What \<open>\w\<close> matches among the code points below 256: the ASCII letters, digits and
  underscore, and the letters and numbers of Latin-1.
\<close>

definition isword :: "char \<Rightarrow> bool" where
  "isword c \<longleftrightarrow>
     isalpha_ascii c \<or> isdigit c \<or> c = CHR ''_'' \<or>
     (let n = (of_char c :: nat) in
        n \<in> set [170, 178, 179, 181, 185, 186, 188, 189, 190] \<or>
        (192 \<le> n \<and> n \<le> 214) \<or> (216 \<le> n \<and> n \<le> 246) \<or> 248 \<le> n)"

text \<open>\<open>str.lower()\<close> on ASCII letters.\<close>

definition lower_char :: "char \<Rightarrow> char" where
  "lower_char c =
     (case str_find ''ABCDEFGHIJKLMNOPQRSTUVWXYZ'' c of
        None \<Rightarrow> c
      | Some i \<Rightarrow> ''abcdefghijklmnopqrstuvwxyz'' ! i)"

definition str_lower :: "string \<Rightarrow> string" where
  "str_lower s = map lower_char s"

text \<open>\<open>s.find(p) > -1\<close>: the string \<open>p\<close> occurs in \<open>s\<close>.\<close>

fun contains_sub :: "string \<Rightarrow> string \<Rightarrow> bool" where
  "contains_sub [] p = (p = [])"
| "contains_sub (c # cs) p = (startswith (c # cs) p \<or> contains_sub cs p)"


section \<open>is\_numeric\<close>

text \<open>
  \<open>float(val)\<close> succeeds on: optional whitespace around an optional sign followed by
  \<open>inf\<close>, \<open>infinity\<close> or \<open>nan\<close> in any case, or by a decimal number with an optional
  dot and exponent, whose digit groups may hold single underscores between digits.
  \<open>digitpart_tail\<close> consumes \<open>(["_"] digit)*\<close> and returns what follows.
\<close>

fun digitpart_tail :: "string \<Rightarrow> string" where
  "digitpart_tail [] = []"
| "digitpart_tail [c] = (if isdigit c then [] else [c])"
| "digitpart_tail (c # d # r) =
     (if isdigit c then digitpart_tail (d # r)
      else if c = CHR ''_'' \<and> isdigit d then digitpart_tail r
      else c # d # r)"

definition digitpart :: "string \<Rightarrow> string option" where
  "digitpart s = (case s of [] \<Rightarrow> None | c # r \<Rightarrow> if isdigit c then Some (digitpart_tail r) else None)"

definition drop_sign :: "string \<Rightarrow> string" where
  "drop_sign s = (case s of [] \<Rightarrow> [] | c # r \<Rightarrow> if c = CHR ''+'' \<or> c = CHR ''-'' then r else s)"

text \<open>\<open>[digitpart] "." digitpart | digitpart ["."]\<close>: what follows the number.\<close>

definition float_number :: "string \<Rightarrow> string option" where
  "float_number s =
     (case digitpart s of
        Some r \<Rightarrow>
          (case r of
             [] \<Rightarrow> Some []
           | c # r2 \<Rightarrow>
               if c = CHR ''.'' then (case digitpart r2 of Some r3 \<Rightarrow> Some r3 | None \<Rightarrow> Some r2)
               else Some r)
      | None \<Rightarrow>
          (case s of
             [] \<Rightarrow> None
           | c # r2 \<Rightarrow> if c = CHR ''.'' then digitpart r2 else None))"

definition float_exponent_ok :: "string \<Rightarrow> bool" where
  "float_exponent_ok r =
     (case r of
        [] \<Rightarrow> True
      | c # r1 \<Rightarrow> (c = CHR ''e'' \<or> c = CHR ''E'') \<and> digitpart (drop_sign r1) = Some [])"

text \<open>The whitespace that \<open>float\<close> removes from both ends: not the separators 28 to 31.\<close>

definition float_space :: "char \<Rightarrow> bool" where
  "float_space c \<longleftrightarrow>
     c \<in> set [CHR 0x09, CHR 0x0A, CHR 0x0B, CHR 0x0C, CHR 0x0D, CHR 0x20, CHR 0x85, CHR 0xA0]"

definition float_strip :: "string \<Rightarrow> string" where
  "float_strip s = rev (dropWhile float_space (rev (dropWhile float_space s)))"

definition py_float_ok :: "string \<Rightarrow> bool" where
  "py_float_ok s =
     (let u = drop_sign (float_strip s) in
      str_lower u \<in> set [''inf'', ''infinity'', ''nan''] \<or>
      (case float_number u of None \<Rightarrow> False | Some r \<Rightarrow> float_exponent_ok r))"

definition is_numeric :: "string \<Rightarrow> bool" where
  "is_numeric val = py_float_ok val"


section \<open>guessTypeFromValue of the JavaScript parser\<close>

text \<open>\<open>re.match('RegExp\\b|\\/[^\\/]', val)\<close>.\<close>

definition match_RegExp :: "string \<Rightarrow> bool" where
  "match_RegExp val \<longleftrightarrow>
     (startswith val ''RegExp'' \<and> (case drop 6 val of [] \<Rightarrow> True | c # r \<Rightarrow> \<not> isword c)) \<or>
     (case val of c # d # r \<Rightarrow> c = CHR ''/'' \<and> d \<noteq> CHR ''/'' | _ \<Rightarrow> False)"

text \<open>\<open>re.search('new (' + fnIdentifier + ')', val)\<close>: group 1 of the leftmost match.\<close>

fun search_new :: "string \<Rightarrow> string option" where
  "search_new [] = None"
| "search_new (c # cs) =
     (if startswith (c # cs) ''new '' \<and> (case drop 4 (c # cs) of [] \<Rightarrow> False | d # r \<Rightarrow> ident_start d)
      then Some (takeWhile ident_char (drop 4 (c # cs)))
      else search_new cs)"

definition guessTypeFromValue :: "settings \<Rightarrow> string \<Rightarrow> pyerror + string option" where
  "guessTypeFromValue S val =
     (let lowerPrimitives = lower_case_primitives S;
          shortPrimitives = short_primitives S
      in if is_numeric val then Inr (Some (if lowerPrimitives then ''number'' else ''Number''))
         else (case val of
            [] \<Rightarrow> Inl IndexError
          | c # r \<Rightarrow>
              if c = dquote \<or> c = squote
                then Inr (Some (if lowerPrimitives then ''string'' else ''String''))
              else if c = CHR ''['' then Inr (Some ''Array'')
              else if c = CHR ''{'' then Inr (Some ''Object'')
              else if val = ''true'' \<or> val = ''false'' then
                (let returnVal = (if shortPrimitives then ''Bool'' else ''Boolean'')
                 in Inr (Some (if lowerPrimitives then str_lower returnVal else returnVal)))
              else if match_RegExp val then Inr (Some ''RegExp'')
              else if contains_sub val ''=>''
                then Inr (Some (if lowerPrimitives then ''function'' else ''Function''))
              else if take 4 val = ''new '' then Inr (search_new val)
              else Inr None))"

section \<open>Notions used to state the properties of the type guesses\<close>

text \<open>A primitive type name as the option \<open>lower_case_primitives\<close> renders it.\<close>

definition prim :: "settings \<Rightarrow> string \<Rightarrow> string" where
  "prim S name = (if lower_case_primitives S then str_lower name else name)"

text \<open>
  The values read as regular expressions: \<open>RegExp\<close> followed by the end of the value
  or by a character that is not a word character, or a slash followed by a character
  other than a slash.
\<close>

definition is_regexp_value :: "string \<Rightarrow> bool" where
  "is_regexp_value val \<longleftrightarrow>
     (\<exists>r. val = ''RegExp'' @ r \<and> (r = [] \<or> \<not> isword (hd r))) \<or>
     (\<exists>d r. val = CHR ''/'' # d # r \<and> d \<noteq> CHR ''/'')"

section \<open>Python values and exceptions in sequence\<close>

text \<open>
  The values that the type guesses pass around: a string, \<open>True\<close>, \<open>False\<close> or
  \<open>None\<close>. \<open>py_truthy\<close> is the test of \<open>if v\<close> and of \<open>v or w\<close>.
\<close>

datatype pyval = Str string | PyTrue | PyFalse | PyNone

definition py_truthy :: "pyval \<Rightarrow> bool" where
  "py_truthy v = (case v of Str s \<Rightarrow> s \<noteq> [] | PyTrue \<Rightarrow> True | PyFalse \<Rightarrow> False | PyNone \<Rightarrow> False)"

definition py_or :: "pyval \<Rightarrow> pyval \<Rightarrow> pyval" where
  "py_or v w = (if py_truthy v then v else w)"

text \<open>\<open>"%s" % v\<close>.\<close>

definition py_str :: "pyval \<Rightarrow> string" where
  "py_str v = (case v of Str s \<Rightarrow> s | PyTrue \<Rightarrow> ''True'' | PyFalse \<Rightarrow> ''False'' | PyNone \<Rightarrow> ''None'')"

text \<open>Run \<open>f\<close> on the result of \<open>m\<close> unless \<open>m\<close> raised.\<close>

definition then_do :: "pyerror + 'a \<Rightarrow> ('a \<Rightarrow> pyerror + 'b) \<Rightarrow> pyerror + 'b" where
  "then_do m f = (case m of Inl e \<Rightarrow> Inl e | Inr x \<Rightarrow> f x)"

text \<open>\<open>list(filter(p, xs))\<close> and a list built element by element, where an element may raise.\<close>

fun filter_checked :: "('a \<Rightarrow> pyerror + bool) \<Rightarrow> 'a list \<Rightarrow> pyerror + 'a list" where
  "filter_checked p [] = Inr []"
| "filter_checked p (x # xs) =
     then_do (p x) (\<lambda>b. then_do (filter_checked p xs) (\<lambda>r. Inr (if b then x # r else r)))"

fun map_checked :: "('a \<Rightarrow> pyerror + 'b) \<Rightarrow> 'a list \<Rightarrow> pyerror + 'b list" where
  "map_checked f [] = Inr []"
| "map_checked f (x # xs) =
     then_do (f x) (\<lambda>y. then_do (map_checked f xs) (\<lambda>r. Inr (y # r)))"


section \<open>The settings of a parser\<close>

definition identifier_pattern :: string where
  "identifier_pattern = ''[a-zA-Z_$][a-zA-Z_$0-9]*''"

definition fnOpener_pattern :: string where
  "fnOpener_pattern =
     ''(?:'' @ ''function['' @ [bslash] @ ''s*]*(?:'' @ identifier_pattern @ '')?'' @ [bslash] @ ''s*''
       @ [bslash] @ ''('' @ ''|''
       @ ''(?:'' @ identifier_pattern @ ''|'' @ [bslash] @ ''(.*'' @ [bslash] @ '')'' @ [bslash]
       @ ''s*=>)'' @ ''|''
       @ ''(?:'' @ identifier_pattern @ [bslash] @ ''s*'' @ [bslash] @ ''(.*'' @ [bslash] @ '')''
       @ [bslash] @ ''s*'' @ [bslash] @ ''{)'' @ '')''"

definition typeTag :: "settings \<Rightarrow> string" where
  "typeTag S = (if override_js_var S \<noteq> [] then override_js_var S else ''type'')"

text \<open>\<open>self.settings\<close> as \<open>setupSettings\<close> of the dialect builds it.\<close>

definition parser_settings :: "dialect \<Rightarrow> settings \<Rightarrow> (string \<times> pyval) list" where
  "parser_settings d S =
     [(''curlyTypes'', PyTrue),
      (''typeInfo'', PyTrue),
      (''typeTag'', Str (typeTag S)),
      (''varIdentifier'', Str identifier_pattern),
      (''fnIdentifier'', Str identifier_pattern),
      (''fnOpener'', (case d of Javascript \<Rightarrow> Str fnOpener_pattern | Coffee \<Rightarrow> PyNone)),
      (''commentCloser'', Str (commentCloser d)),
      (''bool'', Str ''Boolean''),
      (''function'', Str ''Function'')]"


section \<open>Notation rules and guessTypeFromName\<close>

text \<open>
  \<open>(?:[A-Z_]|$)\<close> at the start of \<open>r\<close>: an upper-case letter or an underscore comes
  next, or the string ends here, or it ends after one line break.
\<close>

definition name_boundary :: "string \<Rightarrow> bool" where
  "name_boundary r =
     (case r of
        [] \<Rightarrow> True
      | c # cs \<Rightarrow> isupper_ascii c \<or> c = CHR ''_'' \<or> (c = newline \<and> cs = []))"

text \<open>\<open>re.match('.*[a-z]', prefix)\<close>: a lower-case letter on the first line of the prefix.\<close>

definition has_lower :: "string \<Rightarrow> bool" where
  "has_lower p = list_ex islower_ascii (takeWhile (\<lambda>c. c \<noteq> newline) p)"

text \<open>
  \<open>checkMatch\<close>. \<open>rs\<close> stands for \<open>re.search\<close> on the pattern of a rule and a name:
  the patterns are the user's, and the search raises on a pattern that does not compile.
\<close>

definition checkMatch ::
  "(string \<Rightarrow> string \<Rightarrow> pyerror + bool) \<Rightarrow> string \<Rightarrow> notation_rule \<Rightarrow> pyerror + bool" where
  "checkMatch rs name rule =
     (case rule_prefix rule of
        Some p \<Rightarrow>
          Inr (startswith name p \<and> (if has_lower p then name_boundary (drop (length p) name) else True))
      | None \<Rightarrow> (case rule_regex rule of Some r \<Rightarrow> rs r name | None \<Rightarrow> Inr False))"

definition base_getMatchingNotations ::
  "(string \<Rightarrow> string \<Rightarrow> pyerror + bool) \<Rightarrow> settings \<Rightarrow> string \<Rightarrow> pyerror + notation_rule list" where
  "base_getMatchingNotations rs S name = filter_checked (checkMatch rs name) (notation_map S)"

text \<open>The rule that the JavaScript parser appends for a generator.\<close>

definition yield_rule :: "settings \<Rightarrow> notation_rule" where
  "yield_rule S =
     (let yieldTag = ''@yield'' @
            (case return_tag S of
               None \<Rightarrow> []
             | Some t \<Rightarrow> if t \<noteq> [] \<and> last t = CHR ''s'' then ''s'' else []);
          description = (if return_description S = Some False then [] else '' ${1:[description]}'')
      in \<lparr>rule_prefix = None, rule_regex = None, rule_type = None,
          rule_tags = Some [yieldTag @ '' {${1:[type]}}'' @ description]\<rparr>)"

definition getMatchingNotations ::
  "dialect \<Rightarrow> (string \<Rightarrow> string \<Rightarrow> pyerror + bool) \<Rightarrow> settings \<Rightarrow> string
     \<Rightarrow> pyerror + notation_rule list" where
  "getMatchingNotations d rs S name =
     (case d of
        Coffee \<Rightarrow> base_getMatchingNotations rs S name
      | Javascript \<Rightarrow>
          then_do (base_getMatchingNotations rs S name) (\<lambda>out.
            if name \<noteq> [] \<and> hd name = CHR ''*'' then
              (if return_tag S = Some [] then Inl IndexError
               else Inr (out @ [yield_rule S]))
            else Inr out))"

text \<open>\<open>re.match("(?:is|has)[A-Z_]", name)\<close> and \<open>re.match("^(?:cb|callback|done|next|fn)$", name)\<close>.\<close>

definition match_is_has :: "string \<Rightarrow> bool" where
  "match_is_has name \<longleftrightarrow>
     (startswith name ''is'' \<and> (case drop 2 name of [] \<Rightarrow> False | c # r \<Rightarrow> isupper_ascii c \<or> c = CHR ''_'')) \<or>
     (startswith name ''has'' \<and> (case drop 3 name of [] \<Rightarrow> False | c # r \<Rightarrow> isupper_ascii c \<or> c = CHR ''_''))"

definition callback_names :: "string list" where
  "callback_names = [''cb'', ''callback'', ''done'', ''next'', ''fn'']"

definition match_callback :: "string \<Rightarrow> bool" where
  "match_callback name \<longleftrightarrow>
     name \<in> set callback_names \<or>
     (name \<noteq> [] \<and> last name = newline \<and> butlast name \<in> set callback_names)"

text \<open>\<open>self.settings[t] if t in self.settings else t\<close>.\<close>

definition resolve_type :: "dialect \<Rightarrow> settings \<Rightarrow> string \<Rightarrow> pyval" where
  "resolve_type d S t = (case map_of (parser_settings d S) t of Some v \<Rightarrow> v | None \<Rightarrow> Str t)"

definition guessTypeFromName ::
  "dialect \<Rightarrow> (string \<Rightarrow> string \<Rightarrow> pyerror + bool) \<Rightarrow> settings \<Rightarrow> string \<Rightarrow> pyerror + pyval" where
  "guessTypeFromName d rs S name =
     then_do (getMatchingNotations d rs S name) (\<lambda>matches.
       (case (case matches of [] \<Rightarrow> None | rule # rest \<Rightarrow> rule_type rule) of
          Some t \<Rightarrow> Inr (resolve_type d S t)
        | None \<Rightarrow>
            if match_is_has name then Inr (resolve_type d S ''bool'')
            else if match_callback name then Inr (resolve_type d S ''function'')
            else Inr PyFalse))"


section \<open>getFunctionReturnType\<close>

text \<open>\<open>[$_]?\<close> followed by one of the words and \<open>($|[A-Z_])\<close>.\<close>

definition drop_sigil :: "string \<Rightarrow> string" where
  "drop_sigil name =
     (case name of [] \<Rightarrow> [] | c # r \<Rightarrow> if c = CHR ''$'' \<or> c = CHR ''_'' then r else name)"

definition match_word_boundary :: "string list \<Rightarrow> string \<Rightarrow> bool" where
  "match_word_boundary ws name =
     list_ex (\<lambda>w. startswith (drop_sigil name) w \<and> name_boundary (drop (length w) (drop_sigil name))) ws"

definition base_getFunctionReturnType ::
  "dialect \<Rightarrow> (string \<Rightarrow> string \<Rightarrow> pyerror + bool) \<Rightarrow> settings \<Rightarrow> string \<Rightarrow> pyerror + pyval" where
  "base_getFunctionReturnType d rs S name =
     (if name \<noteq> [] \<and> isupper_ascii (hd name) then Inr PyNone
      else if match_word_boundary [''set'', ''add''] name then Inr PyNone
      else if match_word_boundary [''is'', ''has''] name then Inr (resolve_type d S ''bool'')
      else then_do (guessTypeFromName d rs S name) (\<lambda>g. Inr (py_or g PyFalse)))"

definition getFunctionReturnType ::
  "dialect \<Rightarrow> (string \<Rightarrow> string \<Rightarrow> pyerror + bool) \<Rightarrow> settings \<Rightarrow> string \<Rightarrow> pyerror + pyval" where
  "getFunctionReturnType d rs S name =
     (case d of
        Coffee \<Rightarrow> base_getFunctionReturnType d rs S name
      | Javascript \<Rightarrow>
          if name \<noteq> [] \<and> hd name = CHR ''*'' then Inr PyNone
          else base_getFunctionReturnType d rs S name)"

section \<open>The patterns of parseFunction and parseVar\<close>

text \<open>
  \<open>re.search\<close> tries the start positions from the left; \<open>at\<close> is the match of the
  pattern at the start of a string.
\<close>

fun re_search :: "(string \<Rightarrow> 'a option) \<Rightarrow> string \<Rightarrow> 'a option" where
  "re_search at [] = at []"
| "re_search at (c # cs) = (case at (c # cs) of Some m \<Rightarrow> Some m | None \<Rightarrow> re_search at cs)"

text \<open>
  A greedy \<open>.*\<close> followed by a closing parenthesis and a tail: the index of the last
  closing parenthesis before the first line break after which \<open>tail\<close> matches.
\<close>

fun last_paren :: "(string \<Rightarrow> bool) \<Rightarrow> string \<Rightarrow> nat option" where
  "last_paren tail [] = None"
| "last_paren tail (c # cs) =
     (if c = newline then None
      else (case last_paren tail cs of
              Some k \<Rightarrow> Some (Suc k)
            | None \<Rightarrow> if c = CHR '')'' \<and> tail cs then Some 0 else None))"

text \<open>The identifier at the start of a string.\<close>

definition ident_at :: "string \<Rightarrow> string option" where
  "ident_at s =
     (case s of [] \<Rightarrow> None | c # r \<Rightarrow> if ident_start c then Some (takeWhile ident_char s) else None)"

text \<open>
  \<open>function(?P<generator>[\s*]+)?(?P<name2>identifier)?\s*\(\s*(?P<args>.*)\)\<close> at the
  start of a string: the groups generator, name2 and args, the empty string for a group
  that took no part in the match.
\<close>

definition function_at :: "string \<Rightarrow> (string \<times> string \<times> string) option" where
  "function_at s =
     (if startswith s ''function'' then
        (let r = drop 8 s;
             generator = takeWhile (\<lambda>c. isspace c \<or> c = CHR ''*'') r;
             r1 = drop (length generator) r;
             name2 = (case ident_at r1 of Some n \<Rightarrow> n | None \<Rightarrow> []);
             r2 = dropWhile isspace (drop (length name2) r1)
         in if startswith r2 ''('' then
              (let r3 = dropWhile isspace (drop 1 r2)
               in case last_paren (\<lambda>rest. True) r3 of
                    Some k \<Rightarrow> Some (generator, name2, take k r3)
                  | None \<Rightarrow> None)
            else None)
      else None)"

text \<open>The first pattern of the JavaScript parseFunction: \<open>(?:(?P<name1>identifier)\s*[:=]\s*)?\<close> before the above.\<close>

definition assigned_function_at :: "string \<Rightarrow> (string \<times> string \<times> string \<times> string) option" where
  "assigned_function_at s =
     (case (case ident_at s of
              None \<Rightarrow> None
            | Some name1 \<Rightarrow>
                (let r = dropWhile isspace (drop (length name1) s)
                 in if r \<noteq> [] \<and> (hd r = CHR '':'' \<or> hd r = CHR ''='')
                    then map_option (\<lambda>(g, n2, a). (name1, g, n2, a)) (function_at (dropWhile isspace (tl r)))
                    else None)) of
        Some m \<Rightarrow> Some m
      | None \<Rightarrow> map_option (\<lambda>(g, n2, a). ([], g, n2, a)) (function_at s))"

text \<open>The second pattern, of arrow functions: the groups args and args2.\<close>

definition arrow_follows :: "string \<Rightarrow> bool" where
  "arrow_follows rest = startswith (dropWhile isspace rest) ''=>''"

definition arrow_at :: "string \<Rightarrow> (string \<times> string) option" where
  "arrow_at s =
     (case (case ident_at s of
              None \<Rightarrow> None
            | Some a \<Rightarrow> if arrow_follows (drop (length a) s) then Some (a, []) else None) of
        Some m \<Rightarrow> Some m
      | None \<Rightarrow>
          if startswith s ''('' then
            (let r = dropWhile isspace (drop 1 s)
             in case last_paren arrow_follows r of Some k \<Rightarrow> Some ([], take k r) | None \<Rightarrow> None)
          else None)"

text \<open>The third pattern, of method shorthand: the groups name1 and args.\<close>

definition brace_follows :: "string \<Rightarrow> bool" where
  "brace_follows rest = startswith (dropWhile isspace rest) ''{''"

definition method_at :: "string \<Rightarrow> (string \<times> string) option" where
  "method_at s =
     (case ident_at s of
        None \<Rightarrow> None
      | Some n \<Rightarrow>
          (let r = dropWhile isspace (drop (length n) s)
           in if startswith r ''('' then
                (case last_paren brace_follows (drop 1 r) of
                   Some k \<Rightarrow> Some (n, take k (drop 1 r))
                 | None \<Rightarrow> None)
              else None))"

text \<open>
  parseFunction of the JavaScript parser. The result is the name and the arguments; the
  third component of the tuple of the source is always \<open>None\<close> and is left out.
\<close>

definition js_parseFunction :: "string \<Rightarrow> (string \<times> string) option" where
  "js_parseFunction line =
     (case re_search assigned_function_at line of
        Some (name1, generator, name2, args) \<Rightarrow>
          (let generatorSymbol = (if contains_sub generator ''*'' then ''*'' else [])
           in Some (generatorSymbol @ (if name1 \<noteq> [] then name1 else name2), args))
      | None \<Rightarrow>
          (case re_search arrow_at line of
             Some (args, args2) \<Rightarrow> Some ([], if args \<noteq> [] then args else args2)
           | None \<Rightarrow>
               (case re_search method_at line of
                  Some (name1, args) \<Rightarrow> Some (name1, args)
                | None \<Rightarrow> None)))"

text \<open>
  parseFunction of the CoffeeScript parser:
  \<open>(?:(?P<name>identifier)\s*[:=]\s*)?(?:\((?P<args>[^()]*?)\))?\s*([=-]>)\<close>.
  The arguments are \<open>None\<close> when the group took no part; every use of them tests their
  truth only, so \<open>None\<close> is rendered as the empty string.
\<close>

definition coffee_arrow :: "string \<Rightarrow> bool" where
  "coffee_arrow s =
     (startswith (dropWhile isspace s) ''=>'' \<or> startswith (dropWhile isspace s) ''->'')"

definition coffee_tail :: "string \<Rightarrow> string option" where
  "coffee_tail s =
     (if startswith s ''('' \<and>
         startswith (dropWhile (\<lambda>c. c \<noteq> CHR ''('' \<and> c \<noteq> CHR '')'') (drop 1 s)) '')'' \<and>
         coffee_arrow (drop 1 (dropWhile (\<lambda>c. c \<noteq> CHR ''('' \<and> c \<noteq> CHR '')'') (drop 1 s)))
      then Some (takeWhile (\<lambda>c. c \<noteq> CHR ''('' \<and> c \<noteq> CHR '')'') (drop 1 s))
      else if coffee_arrow s then Some []
      else None)"

definition coffee_at :: "string \<Rightarrow> (string \<times> string) option" where
  "coffee_at s =
     (case (case ident_at s of
              None \<Rightarrow> None
            | Some n \<Rightarrow>
                (let r = dropWhile isspace (drop (length n) s)
                 in if r \<noteq> [] \<and> (hd r = CHR '':'' \<or> hd r = CHR ''='')
                    then map_option (\<lambda>a. (n, a)) (coffee_tail (dropWhile isspace (tl r)))
                    else None)) of
        Some m \<Rightarrow> Some m
      | None \<Rightarrow> map_option (\<lambda>a. ([], a)) (coffee_tail s))"

definition coffee_parseFunction :: "string \<Rightarrow> (string \<times> string) option" where
  "coffee_parseFunction line = re_search coffee_at line"

definition parseFunction :: "dialect \<Rightarrow> string \<Rightarrow> (string \<times> string) option" where
  "parseFunction d line =
     (case d of Javascript \<Rightarrow> js_parseFunction line | Coffee \<Rightarrow> coffee_parseFunction line)"

text \<open>
  parseVar, the same in both parsers:
  \<open>(?P<name>identifier)\s*[=:]\s*(?P<val>.*?)(?:[;,]|$)\<close>. \<open>var_value\<close> is the lazy
  \<open>.*?\<close> up to the first semicolon or comma or the end.
\<close>

fun var_value :: "string \<Rightarrow> string option" where
  "var_value [] = Some []"
| "var_value (c # cs) =
     (if c = CHR '';'' \<or> c = CHR '','' then Some []
      else if c = newline then (if cs = [] then Some [] else None)
      else map_option (\<lambda>v. c # v) (var_value cs))"

definition var_at :: "string \<Rightarrow> (string \<times> string) option" where
  "var_at s =
     (case ident_at s of
        None \<Rightarrow> None
      | Some n \<Rightarrow>
          (let r = dropWhile isspace (drop (length n) s)
           in if r \<noteq> [] \<and> (hd r = CHR ''='' \<or> hd r = CHR '':'')
              then map_option (\<lambda>v. (n, v)) (var_value (dropWhile isspace (tl r)))
              else None))"

definition parseVar :: "string \<Rightarrow> (string \<times> string) option" where
  "parseVar line = map_option (\<lambda>(n, v). (n, strip v)) (re_search var_at line)"


section \<open>The arguments of a function\<close>

text \<open>\<open>str.replace\<close> of one character, and \<open>escape\<close>.\<close>

definition replace_char :: "char \<Rightarrow> string \<Rightarrow> string \<Rightarrow> string" where
  "replace_char c rep s = concat (map (\<lambda>x. if x = c then rep else [x]) s)"

definition escape :: "string \<Rightarrow> string" where
  "escape s =
     replace_char (CHR ''}'') [bslash, CHR ''}'']
       (replace_char (CHR ''{'') [bslash, CHR ''{'']
          (replace_char (CHR ''$'') [bslash, CHR ''$''] s))"

text \<open>
  \<open>re.split(r'\s*=\s*', arg, 1)\<close>: the part before the leftmost match, and the part
  after it if there is a match.
\<close>

fun split_assign :: "string \<Rightarrow> string \<times> string option" where
  "split_assign [] = ([], None)"
| "split_assign (c # cs) =
     (if startswith (dropWhile isspace (c # cs)) ''=''
      then ([], Some (dropWhile isspace (drop 1 (dropWhile isspace (c # cs)))))
      else (case split_assign cs of (n, v) \<Rightarrow> (c # n, v)))"

text \<open>\<open>re.search('^\{.*\}$', arg)\<close>.\<close>

definition is_braced :: "string \<Rightarrow> bool" where
  "is_braced arg \<longleftrightarrow>
     startswith arg ''{'' \<and>
     (let body = drop 1 arg;
          body1 = (if body \<noteq> [] \<and> last body = newline then butlast body else body)
      in body1 \<noteq> [] \<and> last body1 = CHR ''}'' \<and> newline \<notin> set (butlast body1))"

definition js_getArgType :: "settings \<Rightarrow> string \<Rightarrow> pyerror + string option" where
  "js_getArgType S arg =
     (case split_assign arg of
        (namePart, v) \<Rightarrow>
          if startswith namePart ''...'' then Inr (Some ''...[type]'')
          else (case v of Some val \<Rightarrow> guessTypeFromValue S val | None \<Rightarrow> Inr None))"

definition js_getArgName :: "string \<Rightarrow> string" where
  "js_getArgName arg =
     (let namePart = fst (split_assign arg)
      in if startswith namePart ''...'' then drop 3 namePart else namePart)"

definition js_getArgInfo :: "settings \<Rightarrow> string \<Rightarrow> pyerror + (string option \<times> string) list" where
  "js_getArgInfo S arg =
     (let subItems = (if is_braced arg then splitByCommas (butlast (drop 1 arg)) else [arg]);
          prefix = (if is_braced arg then ''options.'' else [])
      in map_checked
           (\<lambda>subItem. then_do (js_getArgType S subItem) (\<lambda>t. Inr (t, prefix @ js_getArgName subItem)))
           subItems)"

definition getArgInfo :: "dialect \<Rightarrow> settings \<Rightarrow> string \<Rightarrow> pyerror + (string option \<times> string) list" where
  "getArgInfo d S arg =
     (case d of Javascript \<Rightarrow> js_getArgInfo S arg | Coffee \<Rightarrow> Inr [(None, arg)])"

definition parseArgs :: "dialect \<Rightarrow> settings \<Rightarrow> string \<Rightarrow> pyerror + (string option \<times> string) list" where
  "parseArgs d S args =
     then_do (map_checked (getArgInfo d S) (splitByCommas args)) (\<lambda>out. Inr (concat out))"


section \<open>formatFunction and formatVar\<close>

text \<open>\<open>escape(v)\<close> for a value that need not be a string.\<close>

definition escape_val :: "pyval \<Rightarrow> pyerror + string" where
  "escape_val v = (case v of Str s \<Rightarrow> Inr (escape s) | _ \<Rightarrow> Inl AttributeError)"

definition of_guess :: "string option \<Rightarrow> pyval" where
  "of_guess g = (case g of Some t \<Rightarrow> Str t | None \<Rightarrow> PyNone)"

definition getTypeInfo ::
  "dialect \<Rightarrow> (string \<Rightarrow> string \<Rightarrow> pyerror + bool) \<Rightarrow> settings \<Rightarrow> string option \<Rightarrow> string
     \<Rightarrow> pyerror + string" where
  "getTypeInfo d rs S argType argName =
     then_do
       (if py_truthy (of_guess argType) then Inr (of_guess argType)
        else then_do (guessTypeFromName d rs S argName) (\<lambda>g. Inr (py_or g (Str ''[type]''))))
       (\<lambda>v. then_do (escape_val v) (\<lambda>e. Inr (''{${1:'' @ e @ ''}} '')))"

text \<open>\<open>/\*.*?\*/\<close> and \<open>/\*.*\*/\<close> removed: up to the first, or up to the last, \<open>*/\<close> of the line.\<close>

fun find_first_close :: "string \<Rightarrow> nat option" where
  "find_first_close [] = None"
| "find_first_close (c # cs) =
     (if startswith (c # cs) ''*/'' then Some 0 else map_option Suc (find_first_close cs))"

fun find_last_close :: "string \<Rightarrow> nat option" where
  "find_last_close [] = None"
| "find_last_close (c # cs) =
     (case find_last_close cs of
        Some k \<Rightarrow> Some (Suc k)
      | None \<Rightarrow> if startswith (c # cs) ''*/'' then Some 0 else None)"

definition find_close :: "bool \<Rightarrow> string \<Rightarrow> nat option" where
  "find_close greedy s = (if greedy then find_last_close s else find_first_close s)"

function strip_block :: "bool \<Rightarrow> string \<Rightarrow> string" where
  "strip_block greedy [] = []"
| "strip_block greedy (c # cs) =
     (if startswith (c # cs) ''/*'' then
        (case find_close greedy (takeWhile (\<lambda>x. x \<noteq> newline) (drop 1 cs)) of
           Some k \<Rightarrow> strip_block greedy (drop (k + 3) cs)
         | None \<Rightarrow> c # strip_block greedy cs)
      else c # strip_block greedy cs)"
  by pat_completeness auto
termination
  by (relation "measure (\<lambda>(greedy, s). length s)") auto

text \<open>The lines for the parameters.\<close>

definition param_line ::
  "dialect \<Rightarrow> (string \<Rightarrow> string \<Rightarrow> pyerror + bool) \<Rightarrow> settings \<Rightarrow> string option \<times> string
     \<Rightarrow> pyerror + string" where
  "param_line d rs S a =
     (case a of
        (argType, argName) \<Rightarrow>
          then_do (getTypeInfo d rs S argType argName) (\<lambda>typeInfo.
            Inr ((if prefer_param S then ''@param '' else ''@arg '')
                 @ typeInfo @ (if param_name S then escape argName else [])
                 @ (if param_description S then '' ${1:[description]}'' else []))))"

definition param_lines ::
  "dialect \<Rightarrow> (string \<Rightarrow> string \<Rightarrow> pyerror + bool) \<Rightarrow> settings \<Rightarrow> string \<Rightarrow> pyerror + string list" where
  "param_lines d rs S args =
     (if args \<noteq> [] then
        then_do (parseArgs d S (strip_block False args)) (map_checked (param_line d rs S))
      else Inr [])"

text \<open>The line for the return value; \<open>args\<close> are the arguments after their comments were removed.\<close>

definition return_lines :: "settings \<Rightarrow> string \<Rightarrow> pyval \<Rightarrow> string list" where
  "return_lines S args retType =
     (if retType = PyNone then []
      else
        [(case return_tag S of None \<Rightarrow> ''@return'' | Some t \<Rightarrow> if t \<noteq> [] then t else ''@return'')
         @ '' {${1:'' @ py_str (py_or retType (Str ''[type]'')) @ ''}}''
         @ (if return_description S = Some True then
              '' '' @ (if args \<noteq> [] \<and> align_tags S = AlignDeep \<and> \<not> per_section_indent S
                       then '' '' else [])
              @ ''${1:[description]}''
            else [])])"

definition notation_tags :: "notation_rule list \<Rightarrow> string list" where
  "notation_tags rules =
     concat (map (\<lambda>rule. case rule_tags rule of Some ts \<Rightarrow> ts | None \<Rightarrow> []) rules)"

definition function_header :: "command \<Rightarrow> string \<Rightarrow> string list" where
  "function_header cmd name =
     (let S = cmd_settings cmd;
          description =
            (if cmd_trailingString cmd \<noteq> [] then cmd_trailingString cmd
             else ''['' @ escape name @ (if name \<noteq> [] then '' '' else []) @ ''description]'')
      in (if function_description S = Some True then [''${1:'' @ description @ ''}''] else [])
         @ (if autoadd_method_tag S then [''@method '' @ escape name] else [])
         @ (if \<not> extra_tags_go_after S then extra_tags S else []))"

definition formatFunction ::
  "(string \<Rightarrow> string \<Rightarrow> pyerror + bool) \<Rightarrow> command \<Rightarrow> string \<Rightarrow> string \<Rightarrow> pyerror + string list" where
  "formatFunction rs cmd name args =
     (let S = cmd_settings cmd; d = cmd_dialect cmd
      in then_do (param_lines d rs S args) (\<lambda>params.
         then_do (getFunctionReturnType d rs S name) (\<lambda>retType.
         then_do (getMatchingNotations d rs S name) (\<lambda>notations.
           Inr (function_header cmd name
                @ params
                @ return_lines S (if args \<noteq> [] then strip_block False args else args) retType
                @ notation_tags notations
                @ (if extra_tags_go_after S then extra_tags S else []))))))"

text \<open>guessTypeFromValue of the CoffeeScript parser.\<close>

definition coffee_guessTypeFromValue :: "settings \<Rightarrow> string \<Rightarrow> pyerror + string option" where
  "coffee_guessTypeFromValue S val =
     (let lowerPrimitives = lower_case_primitives S
      in if is_numeric val then Inr (Some (if lowerPrimitives then ''number'' else ''Number''))
         else (case val of
            [] \<Rightarrow> Inl IndexError
          | c # r \<Rightarrow>
              if c = dquote \<or> c = squote
                then Inr (Some (if lowerPrimitives then ''string'' else ''String''))
              else if c = CHR ''['' then Inr (Some ''Array'')
              else if c = CHR ''{'' then Inr (Some ''Object'')
              else if val = ''true'' \<or> val = ''false''
                then Inr (Some (if lowerPrimitives then ''boolean'' else ''Boolean''))
              else if match_RegExp val then Inr (Some ''RegExp'')
              else if take 4 val = ''new '' then Inr (search_new val)
              else Inr None))"

definition formatVar ::
  "(string \<Rightarrow> string \<Rightarrow> pyerror + bool) \<Rightarrow> command \<Rightarrow> bool \<Rightarrow> string \<Rightarrow> string
     \<Rightarrow> pyerror + string list" where
  "formatVar rs cmd inline name val =
     (let S = cmd_settings cmd; d = cmd_dialect cmd
      in then_do
           (if val = [] then Inr (Str ''[type]'')
            else then_do
                   (case d of Javascript \<Rightarrow> guessTypeFromValue S val
                            | Coffee \<Rightarrow> coffee_guessTypeFromValue S val) (\<lambda>g.
                   if py_truthy (of_guess g) then Inr (of_guess g)
                   else then_do (guessTypeFromName d rs S name) (\<lambda>n. Inr (py_or n (Str ''[type]'')))))
           (\<lambda>valType.
              Inr (if inline then
                     [''@'' @ typeTag S @ '' {${1:'' @ py_str valType @ ''}} ${1:[description]}'']
                   else
                     [''${1:['' @ escape name @ '' description]}'',
                      ''@'' @ typeTag S @ '' {${1:'' @ py_str valType @ ''}}''])))"


section \<open>parse\<close>

text \<open>The body of the \<open>try\<close> of parse, and parse, which turns every exception into \<open>None\<close>.\<close>

definition parse_body ::
  "(string \<Rightarrow> string \<Rightarrow> pyerror + bool) \<Rightarrow> command \<Rightarrow> bool \<Rightarrow> string
     \<Rightarrow> pyerror + string list option" where
  "parse_body rs cmd inline line =
     (case parseFunction (cmd_dialect cmd) line of
        Some (name, args) \<Rightarrow> then_do (formatFunction rs cmd name args) (\<lambda>out. Inr (Some out))
      | None \<Rightarrow>
          (case parseVar line of
             Some (name, val) \<Rightarrow> then_do (formatVar rs cmd inline name val) (\<lambda>out. Inr (Some out))
           | None \<Rightarrow> Inr None))"

definition parse ::
  "(string \<Rightarrow> string \<Rightarrow> pyerror + bool) \<Rightarrow> command \<Rightarrow> bool \<Rightarrow> string \<Rightarrow> string list option" where
  "parse rs cmd inline line =
     (if simple_mode (cmd_settings cmd) then None
      else (case parse_body rs cmd inline line of Inl e \<Rightarrow> None | Inr out \<Rightarrow> out))"

text \<open>What the command writes for a line that is not inside a comment.\<close>

definition document ::
  "(string \<Rightarrow> string \<Rightarrow> pyerror + bool) \<Rightarrow> command \<Rightarrow> bool \<Rightarrow> string \<Rightarrow> string" where
  "document rs cmd inline line = generateSnippet cmd (parse rs cmd inline line) inline"


section \<open>getDefinition\<close>

text \<open>
  The view is its text. \<open>view.line(point)\<close> is the line that holds \<open>point\<close>, without
  its line break; \<open>read_line\<close> gives \<open>None\<close> from the end of the text on.
\<close>

definition line_at :: "string \<Rightarrow> nat \<Rightarrow> string" where
  "line_at content pos =
     rev (takeWhile (\<lambda>c. c \<noteq> newline) (rev (take pos content)))
     @ takeWhile (\<lambda>c. c \<noteq> newline) (drop pos content)"

definition read_line :: "string \<Rightarrow> nat \<Rightarrow> string option" where
  "read_line content pos = (if pos \<ge> length content then None else Some (line_at content pos))"

text \<open>\<open>re.sub(r"//.*", "", line)\<close>; the flag says that the scan is inside a comment.\<close>

fun strip_line_comments_from :: "bool \<Rightarrow> string \<Rightarrow> string" where
  "strip_line_comments_from inside [] = []"
| "strip_line_comments_from inside (c # cs) =
     (if inside then
        (if c = newline then c # strip_line_comments_from False cs
         else strip_line_comments_from True cs)
      else if startswith (c # cs) ''//'' then strip_line_comments_from True cs
      else c # strip_line_comments_from False cs)"

definition strip_comments :: "string \<Rightarrow> string" where
  "strip_comments line = strip_block True (strip_line_comments_from False line)"

text \<open>
  The start of the leftmost match of \<open>fnOpener\<close>. Each of its alternatives starts with
  an identifier, which alone is a match, but for \<open>\(.*\)\s*=>\<close>.
\<close>

definition opener_at :: "string \<Rightarrow> bool" where
  "opener_at s =
     (case s of
        [] \<Rightarrow> False
      | c # r \<Rightarrow> ident_start c \<or> (c = CHR ''('' \<and> last_paren arrow_follows r \<noteq> None))"

fun opener_start :: "string \<Rightarrow> nat option" where
  "opener_start [] = None"
| "opener_start (c # cs) =
     (if opener_at (c # cs) then Some 0 else map_option Suc (opener_start cs))"

definition fnOpener_start :: "dialect \<Rightarrow> string \<Rightarrow> nat option" where
  "fnOpener_start d line = (case d of Javascript \<Rightarrow> opener_start line | Coffee \<Rightarrow> None)"

definition countBrackets :: "int \<Rightarrow> char \<Rightarrow> int" where
  "countBrackets tot bracket = tot + (if bracket = CHR ''('' then 1 else - 1)"

definition brackets :: "string \<Rightarrow> string" where
  "brackets s = filter (\<lambda>c. c = CHR ''('' \<or> c = CHR '')'') s"

text \<open>What the first line counts: the line from the start of the function opener on.\<close>

definition searchForBrackets :: "dialect \<Rightarrow> string \<Rightarrow> string \<Rightarrow> string" where
  "searchForBrackets d definition_so_far line =
     (if definition_so_far = [] then
        (case fnOpener_start d line of Some k \<Rightarrow> drop k line | None \<Rightarrow> line)
      else line)"

text \<open>The loop of getDefinition, with the number of iterations that are left.\<close>

fun getDefinition_loop :: "dialect \<Rightarrow> string \<Rightarrow> nat \<Rightarrow> nat \<Rightarrow> int \<Rightarrow> string \<Rightarrow> string" where
  "getDefinition_loop d content 0 pos openBrackets defn = defn"
| "getDefinition_loop d content (Suc n) pos openBrackets defn =
     (case read_line content pos of
        None \<Rightarrow> defn
      | Some raw \<Rightarrow>
          (let line = strip_comments raw;
               openBrackets1 = foldl countBrackets openBrackets (brackets (searchForBrackets d defn line))
           in if openBrackets1 = 0 then defn @ line
              else getDefinition_loop d content n (pos + length raw + 1) openBrackets1 (defn @ line)))"

definition maxLines :: nat where
  "maxLines = 25"

definition getDefinition :: "dialect \<Rightarrow> string \<Rightarrow> nat \<Rightarrow> string" where
  "getDefinition d content pos = getDefinition_loop d content maxLines pos 0 []"

text \<open>\<open>re.search('^\s*\*', line)\<close>.\<close>

definition isExistingComment :: "string \<Rightarrow> bool" where
  "isExistingComment line = startswith (dropWhile isspace line) ''*''"

section \<open>Notions used to state the properties of guessTypeFromName\<close>

text \<open>
  A rule applies to a name: a prefix rule when the name starts with the prefix and, if a
  lower-case letter stands on the first line of the prefix, a boundary follows the prefix
  in the name; a regex rule when the search \<open>srch\<close> finds its pattern in the name.
\<close>

definition rule_applies :: "(string \<Rightarrow> string \<Rightarrow> bool) \<Rightarrow> string \<Rightarrow> notation_rule \<Rightarrow> bool" where
  "rule_applies srch name rule \<longleftrightarrow>
     (case rule_prefix rule of
        Some p \<Rightarrow> startswith name p \<and> (\<not> has_lower p \<or> name_boundary (drop (length p) name))
      | None \<Rightarrow> (case rule_regex rule of Some r \<Rightarrow> srch r name | None \<Rightarrow> False))"

text \<open>The type of a name to which no rule gives a type.\<close>

definition name_fallback :: "string \<Rightarrow> pyval" where
  "name_fallback name =
     (if match_is_has name then Str ''Boolean''
      else if match_callback name then Str ''Function''
      else PyFalse)"

definition b_rule :: notation_rule where
  "b_rule = \<lparr>rule_prefix = Some ''b'', rule_regex = None, rule_type = Some ''bool'', rule_tags = None\<rparr>"

definition aB_rule :: notation_rule where
  "aB_rule = \<lparr>rule_prefix = Some ''aB'', rule_regex = None, rule_type = Some ''bool'', rule_tags = None\<rparr>"

section \<open>Notions used to state the properties of the return line\<close>

text \<open>The kinds of function names.\<close>

definition starts_upper :: "string \<Rightarrow> bool" where
  "starts_upper name \<longleftrightarrow> name \<noteq> [] \<and> isupper_ascii (hd name)"

definition generator_name :: "string \<Rightarrow> bool" where
  "generator_name name \<longleftrightarrow> name \<noteq> [] \<and> hd name = CHR ''*''"

text \<open>
  One of the words \<open>ws\<close>, after an optional \<open>$\<close> or \<open>_\<close>, followed by a boundary:
  the end of the name, or an upper-case letter or an underscore.
\<close>

definition word_at_boundary :: "string list \<Rightarrow> string \<Rightarrow> bool" where
  "word_at_boundary ws name \<longleftrightarrow>
     (\<exists>pre \<in> set [[], ''$'', ''_'']. \<exists>w \<in> set ws.
        startswith name (pre @ w) \<and> name_boundary (drop (length (pre @ w)) name))"

definition mutator_name :: "string \<Rightarrow> bool" where
  "mutator_name name = word_at_boundary [''set'', ''add''] name"

definition predicate_name :: "string \<Rightarrow> bool" where
  "predicate_name name = word_at_boundary [''is'', ''has''] name"

text \<open>The type that the rule table and the form of a name give to the name.\<close>

definition name_type :: "dialect \<Rightarrow> (string \<Rightarrow> string \<Rightarrow> bool) \<Rightarrow> settings \<Rightarrow> string \<Rightarrow> pyval" where
  "name_type d srch S name =
     (case find (rule_applies srch name) (notation_map S) of
        Some rule \<Rightarrow> (case rule_type rule of Some t \<Rightarrow> resolve_type d S t | None \<Rightarrow> name_fallback name)
      | None \<Rightarrow> name_fallback name)"

text \<open>The return type of a function of the JavaScript parser by the kind of its name.\<close>

definition return_type :: "(string \<Rightarrow> string \<Rightarrow> bool) \<Rightarrow> settings \<Rightarrow> string \<Rightarrow> pyval" where
  "return_type srch S name =
     (if starts_upper name \<or> mutator_name name \<or> generator_name name then PyNone
      else if predicate_name name then Str ''Boolean''
      else py_or (name_type Javascript srch S name) PyFalse)"

text \<open>The line for what a generator yields.\<close>

definition ends_in_s :: "string option \<Rightarrow> bool" where
  "ends_in_s t \<longleftrightarrow> (case t of None \<Rightarrow> False | Some tag \<Rightarrow> tag \<noteq> [] \<and> last tag = CHR ''s'')"

definition yield_lines :: "settings \<Rightarrow> string \<Rightarrow> string list" where
  "yield_lines S name =
     (if generator_name name then
        [(if ends_in_s (return_tag S) then ''@yields'' else ''@yield'')
         @ '' {${1:[type]}}''
         @ (if return_description S = Some False then [] else '' ${1:[description]}'')]
      else [])"

text \<open>The settings of the test suite with an empty return tag.\<close>

definition empty_tag_command :: command where
  "empty_tag_command = test_command\<lparr>cmd_settings := test_settings\<lparr>return_tag := Some []\<rparr>\<rparr>"

text \<open>The settings of the test suite with the return tag \<open>@returns\<close>.\<close>

definition returns_command :: command where
  "returns_command = test_command\<lparr>cmd_settings := test_settings\<lparr>return_tag := Some ''@returns''\<rparr>\<rparr>"

section \<open>Notions used to state the properties of the arguments\<close>

text \<open>
  The tokens of an argument list of the JavaScript parser: the comments are removed, the
  list is split at its commas, and a token in braces is split once more.
\<close>

definition arg_tokens :: "string \<Rightarrow> string list" where
  "arg_tokens args =
     concat (map (\<lambda>a. if is_braced a then splitByCommas (butlast (drop 1 a)) else [a])
                 (splitByCommas (strip_block False args)))"

text \<open>A token with an empty default: nothing but whitespace follows its first \<open>=\<close>.\<close>

definition empty_default :: "string \<Rightarrow> bool" where
  "empty_default t \<longleftrightarrow>
     CHR ''='' \<in> set t \<and> list_all isspace (drop 1 (dropWhile (\<lambda>c. c \<noteq> CHR ''='') t))"

definition rest_parameter :: "string \<Rightarrow> bool" where
  "rest_parameter t \<longleftrightarrow> startswith t ''...''"

text \<open>The tokens that getArgInfo reads from one argument.\<close>

definition sub_items :: "string \<Rightarrow> string list" where
  "sub_items a = (if is_braced a then splitByCommas (butlast (drop 1 a)) else [a])"

section \<open>Notions used to state the properties of parse\<close>

text \<open>A rule whose type is a key of the settings that holds \<open>True\<close>, and a command with it.\<close>

definition x_rule :: notation_rule where
  "x_rule = \<lparr>rule_prefix = Some ''x'', rule_regex = None, rule_type = Some ''typeInfo'', rule_tags = None\<rparr>"

definition x_rule_command :: command where
  "x_rule_command = test_command\<lparr>cmd_settings := test_settings\<lparr>notation_map := [x_rule]\<rparr>,
                                  cmd_trailingString := ''sums''\<rparr>"

section \<open>Notions used to state the properties of getDefinition\<close>

text \<open>The successive lines of a text from a position on, as the loop of getDefinition reads them.\<close>

function lines_from :: "string \<Rightarrow> nat \<Rightarrow> string list" where
  "lines_from content pos =
     (case read_line content pos of
        None \<Rightarrow> []
      | Some l \<Rightarrow> l # lines_from content (pos + length l + 1))"
  by pat_completeness auto
termination
  by (relation "measure (\<lambda>(content, pos). length content - pos)")
     (auto simp: read_line_def split: if_splits)

declare lines_from.simps [simp del]

text \<open>The opening minus the closing parentheses of a string.\<close>

definition bracket_balance :: "string \<Rightarrow> int" where
  "bracket_balance s = int (count_list s (CHR ''('')) - int (count_list s (CHR '')''))"

text \<open>
  The lines up to and with the first one at whose end the count of open parentheses is
  zero, or all lines if there is none. \<open>gathered\<close> counts the first line from the start
  of the function opener on.
\<close>

fun gather :: "int \<Rightarrow> string list \<Rightarrow> string list" where
  "gather openBrackets [] = []"
| "gather openBrackets (l # ls) =
     (if openBrackets + bracket_balance l = 0 then [l]
      else l # gather (openBrackets + bracket_balance l) ls)"

definition from_opener :: "dialect \<Rightarrow> string \<Rightarrow> string" where
  "from_opener d line = (case fnOpener_start d line of Some k \<Rightarrow> drop k line | None \<Rightarrow> line)"

fun gathered :: "dialect \<Rightarrow> string list \<Rightarrow> string list" where
  "gathered d [] = []"
| "gathered d (l # ls) =
     (if bracket_balance (from_opener d l) = 0 then [l]
      else l # gather (bracket_balance (from_opener d l)) ls)"

text \<open>The example of a declaration on four lines.\<close>

definition four_lines :: string where
  "four_lines =
     ''function foo(bar,'' @ [newline] @
     ''             baz,'' @ [newline] @
     ''             quux'' @ [newline] @
     ''             ) {''"

section \<open>Properties of splitByCommas\<close>








lemma join_Cons: "ps \<noteq> [] \<Longrightarrow> join sep (p # ps) = p @ sep @ join sep ps"
  by (cases ps) simp_all

lemma kept_invariant:
  "\<exists>ps. ps \<noteq> [] \<and> sp_current st @ kept st s = join '','' ps \<and>
        sp_out (foldl split_step st s) @ [strip (sp_current (foldl split_step st s))] =
        sp_out st @ map strip ps"
proof (induction s arbitrary: st)
  case Nil
  show ?case by (rule exI [of _ "[sp_current st]"]) simp
next
  case (Cons c s)
  obtain ps where ps: "ps \<noteq> []"
      "sp_current (split_step st c) @ kept (split_step st c) s = join '','' ps"
      "sp_out (foldl split_step (split_step st c) s) @
         [strip (sp_current (foldl split_step (split_step st c) s))] =
       sp_out (split_step st c) @ map strip ps"
    using Cons.IH [of "split_step st c"] by blast
  consider (lit) "sp_nextIsLiteral st"
    | (esc) "\<not> sp_nextIsLiteral st" "sp_insideQuotes st" "c = bslash"
    | (ins) "\<not> sp_nextIsLiteral st" "sp_insideQuotes st" "c \<noteq> bslash"
    | (comma) "\<not> sp_nextIsLiteral st" "\<not> sp_insideQuotes st" "c = CHR '',''"
    | (plain) "\<not> sp_nextIsLiteral st" "\<not> sp_insideQuotes st" "c \<noteq> CHR '',''"
    by blast
  then show ?case
  proof cases
    case lit
    then have "sp_current (split_step st c) = sp_current st @ [c]"
        "sp_out (split_step st c) = sp_out st"
      by (simp_all add: split_step_def)
    with ps lit show ?thesis by (intro exI [of _ ps]) simp
  next
    case esc
    then have "sp_current (split_step st c) = sp_current st"
        "sp_out (split_step st c) = sp_out st"
      by (simp_all add: split_step_def)
    with ps esc show ?thesis by (intro exI [of _ ps]) simp
  next
    case ins
    then have "sp_current (split_step st c) = sp_current st @ [c]"
        "sp_out (split_step st c) = sp_out st"
      by (simp_all add: split_step_def)
    with ps ins show ?thesis by (intro exI [of _ ps]) simp
  next
    case comma
    then have "sp_current (split_step st c) = []"
        "sp_out (split_step st c) = sp_out st @ [strip (sp_current st)]"
      by (simp_all add: split_step_def)
    with ps comma show ?thesis
      by (intro exI [of _ "sp_current st # ps"]) (simp add: join_Cons)
  next
    case plain
    then have "sp_current (split_step st c) = sp_current st @ [c]"
        "sp_out (split_step st c) = sp_out st"
      by (simp_all add: split_step_def split: option.splits)
    with ps plain show ?thesis by (intro exI [of _ ps]) simp
  qed
qed

lemma kept_no_bslash: "bslash \<notin> set s \<Longrightarrow> kept st s = s"
  by (induction s arbitrary: st) auto

text \<open>
  Claim C8, as the code has it. For every input the tokens are the stripped pieces of
  some division at commas of the kept characters (the input without the backslashes read
  as escapes); when the input has no backslash, they are the stripped pieces of a
  division of the input itself, so that joining them with a comma and a space gives the
  input back up to whitespace at the ends of the pieces.
\<close>

theorem split_rejoin:
  "\<exists>ps. kept split_init s = join '','' ps \<and> splitByCommas s = map strip ps \<and>
        (bslash \<notin> set s \<longrightarrow> s = join '','' ps)"
proof (cases "s = []")
  case True
  then show ?thesis by (intro exI [of _ "[]"]) (simp add: splitByCommas_def)
next
  case False
  obtain ps where "ps \<noteq> []" "sp_current split_init @ kept split_init s = join '','' ps"
      "sp_out (foldl split_step split_init s) @
         [strip (sp_current (foldl split_step split_init s))] =
       sp_out split_init @ map strip ps"
    using kept_invariant [of split_init s] by blast
  then have a: "kept split_init s = join '','' ps"
    and b: "splitByCommas s = map strip ps"
    using False by (simp_all add: splitByCommas_def split_scan_def split_init_def Let_def)
  have "bslash \<notin> set s \<longrightarrow> s = join '','' ps"
    using a kept_no_bslash [of s split_init] by simp
  with a b show ?thesis by blast
qed

theorem split_rejoin_witness:
  "\<exists>ps. ''a , b(c, d)'' = join '','' ps \<and> splitByCommas ''a , b(c, d)'' = map strip ps"
  using split_rejoin [of "''a , b(c, d)''"] by (auto simp: bslash_def)

text \<open>
  C8 as stated fails: in a balanced double-quoted string the backslash of an escape is
  lost, so the joined tokens differ from the input in more than whitespace.
\<close>

theorem split_rejoin_counterexample:
  "outside (split_scan [dquote, CHR ''a'', bslash, CHR ''b'', dquote]) \<and>
   filter (\<lambda>c. \<not> isspace c) (join '', '' (splitByCommas [dquote, CHR ''a'', bslash, CHR ''b'', dquote]))
     \<noteq> filter (\<lambda>c. \<not> isspace c) [dquote, CHR ''a'', bslash, CHR ''b'', dquote]"
  by (simp add: splitByCommas_def split_scan_def split_step_def split_init_def strip_def isspace_def
      openQuotes_def closeQuotes_def bslash_def dquote_def squote_def outside_def)



section \<open>Renumbering of the placeholders\<close>







lemma takeWhile_all_append:
  "list_all P xs \<Longrightarrow> takeWhile P (xs @ ys) = xs @ takeWhile P ys"
  by (induction xs) simp_all











































section \<open>Properties of alignTags\<close>





section \<open>Properties of guessTypeFromValue\<close>

lemma str_lower_names:
  "str_lower ''Number'' = ''number''" "str_lower ''String'' = ''string''"
  "str_lower ''Boolean'' = ''boolean''" "str_lower ''Bool'' = ''bool''"
  "str_lower ''Function'' = ''function''"
  by (simp_all add: str_lower_def lower_char_def)

lemma contains_sub_iff: "contains_sub s p \<longleftrightarrow> (\<exists>a b. s = a @ p @ b)"
proof (induction s)
  case Nil
  show ?case by auto
next
  case (Cons c s)
  have "startswith (c # s) p \<longleftrightarrow> (\<exists>b. c # s = p @ b)"
    by (metis append_eq_conv_conj append_take_drop_id startswith_def)
  moreover have "(\<exists>a b. c # s = a @ p @ b) \<longleftrightarrow> (\<exists>b. c # s = p @ b) \<or> (\<exists>a b. s = a @ p @ b)"
  proof
    assume "\<exists>a b. c # s = a @ p @ b"
    then obtain a b where ab: "c # s = a @ p @ b" by blast
    show "(\<exists>b. c # s = p @ b) \<or> (\<exists>a b. s = a @ p @ b)"
    proof (cases a)
      case Nil
      with ab show ?thesis by auto
    next
      case (Cons x xs)
      with ab have "s = xs @ p @ b" by simp
      then show ?thesis by blast
    qed
  next
    assume "(\<exists>b. c # s = p @ b) \<or> (\<exists>a b. s = a @ p @ b)"
    then show "\<exists>a b. c # s = a @ p @ b"
    proof
      assume "\<exists>b. c # s = p @ b"
      then obtain b where "c # s = [] @ p @ b" by auto
      then show ?thesis by blast
    next
      assume "\<exists>a b. s = a @ p @ b"
      then obtain a b where "c # s = (c # a) @ p @ b" by auto
      then show ?thesis by blast
    qed
  qed
  ultimately show ?case using Cons.IH by simp
qed


lemma take_eq_prefix: "take (length p) s = p \<longleftrightarrow> (\<exists>r. s = p @ r)"
  by (metis append_eq_conv_conj append_take_drop_id)

lemma startswith_iff: "startswith s p \<longleftrightarrow> (\<exists>r. s = p @ r)"
  by (simp add: startswith_def take_eq_prefix)

lemma match_RegExp_iff: "match_RegExp val \<longleftrightarrow> is_regexp_value val"
proof -
  have a: "(startswith val ''RegExp'' \<and> (case drop 6 val of [] \<Rightarrow> True | c # r \<Rightarrow> \<not> isword c)) \<longleftrightarrow>
        (\<exists>r. val = ''RegExp'' @ r \<and> (r = [] \<or> \<not> isword (hd r)))"
    by (auto simp: startswith_iff split: list.splits)
  have b: "(case val of c # d # r \<Rightarrow> c = CHR ''/'' \<and> d \<noteq> CHR ''/'' | _ \<Rightarrow> False) \<longleftrightarrow>
        (\<exists>d r. val = CHR ''/'' # d # r \<and> d \<noteq> CHR ''/'')"
    by (auto split: list.splits)
  show ?thesis unfolding match_RegExp_def is_regexp_value_def a b ..
qed

lemma search_new_ident:
  assumes "ident \<noteq> []" "ident_start (hd ident)" "list_all ident_char ident"
    and "rest = [] \<or> \<not> ident_char (hd rest)"
  shows "search_new (''new '' @ ident @ rest) = Some ident"
proof -
  from assms(1) obtain c cs where c: "ident = c # cs" by (cases ident) auto
  have "takeWhile ident_char (ident @ rest) = ident"
    using assms(3,4) by (cases rest) (simp_all add: takeWhile_all_append list_all_iff)
  then show ?thesis using c assms(2) by (simp add: startswith_def)
qed

lemma guess_numeric:
  "is_numeric val \<Longrightarrow> guessTypeFromValue S val = Inr (Some (prim S ''Number''))"
  by (simp add: guessTypeFromValue_def prim_def str_lower_names)

lemma guess_empty:
  "\<not> is_numeric val \<Longrightarrow> val = [] \<Longrightarrow> guessTypeFromValue S val = Inl IndexError"
  by (simp add: guessTypeFromValue_def)

lemma guess_first:
  assumes "\<not> is_numeric val" "val \<noteq> []"
  shows "(hd val = dquote \<or> hd val = squote \<longrightarrow>
            guessTypeFromValue S val = Inr (Some (prim S ''String''))) \<and>
         (hd val = CHR ''['' \<longrightarrow> guessTypeFromValue S val = Inr (Some ''Array'')) \<and>
         (hd val = CHR ''{'' \<longrightarrow> guessTypeFromValue S val = Inr (Some ''Object''))"
  using assms
  by (cases val)
     (auto simp: guessTypeFromValue_def prim_def str_lower_names dquote_def squote_def)

lemma guess_unfold:
  "guessTypeFromValue S val =
     (if is_numeric val then Inr (Some (prim S ''Number''))
      else if val = [] then Inl IndexError
      else if hd val = dquote \<or> hd val = squote then Inr (Some (prim S ''String''))
      else if hd val = CHR ''['' then Inr (Some ''Array'')
      else if hd val = CHR ''{'' then Inr (Some ''Object'')
      else if val = ''true'' \<or> val = ''false''
        then Inr (Some (prim S (if short_primitives S then ''Bool'' else ''Boolean'')))
      else if match_RegExp val then Inr (Some ''RegExp'')
      else if contains_sub val ''=>'' then Inr (Some (prim S ''Function''))
      else if take 4 val = ''new '' then Inr (search_new val)
      else Inr None)"
  by (cases val)
     (simp_all add: guessTypeFromValue_def Let_def prim_def str_lower_names
        del: search_new.simps contains_sub.simps)

lemma guess_rest:
  assumes "\<not> is_numeric val" "val \<noteq> []"
    and "hd val \<noteq> dquote" "hd val \<noteq> squote" "hd val \<noteq> CHR ''[''" "hd val \<noteq> CHR ''{''"
  shows "guessTypeFromValue S val =
     (if val = ''true'' \<or> val = ''false''
        then Inr (Some (prim S (if short_primitives S then ''Bool'' else ''Boolean'')))
      else if is_regexp_value val then Inr (Some ''RegExp'')
      else if \<exists>a b. val = a @ ''=>'' @ b then Inr (Some (prim S ''Function''))
      else if \<exists>r. val = ''new '' @ r then Inr (search_new val)
      else Inr None)"
proof -
  have "length ''new '' = 4" by simp
  then have t: "take 4 val = ''new '' \<longleftrightarrow> (\<exists>r. val = ''new '' @ r)"
    using take_eq_prefix [of "''new ''" val] by metis
  show ?thesis
    unfolding guess_unfold t match_RegExp_iff contains_sub_iff using assms by simp
qed


lemma guess_lowering:
  "guessTypeFromValue (S\<lparr>lower_case_primitives := True\<rparr>) val =
     guessTypeFromValue (S\<lparr>lower_case_primitives := False\<rparr>) val \<or>
   (\<exists>X \<in> set [''Number'', ''String'', ''Boolean'', ''Bool'', ''Function''].
      guessTypeFromValue (S\<lparr>lower_case_primitives := False\<rparr>) val = Inr (Some X) \<and>
      guessTypeFromValue (S\<lparr>lower_case_primitives := True\<rparr>) val = Inr (Some (str_lower X)))"
  unfolding guess_unfold by (simp add: prim_def)

lemma guess_examples:
  "guessTypeFromValue test_settings ''1'' = Inr (Some ''Number'')"
  "guessTypeFromValue test_settings ([dquote] @ ''a'' @ [dquote]) = Inr (Some ''String'')"
  "guessTypeFromValue test_settings ''true'' = Inr (Some ''Boolean'')"
  "guessTypeFromValue test_settings ''[1,2]'' = Inr (Some ''Array'')"
  "guessTypeFromValue test_settings ''{a:1}'' = Inr (Some ''Object'')"
  "guessTypeFromValue test_settings ''new Foo()'' = Inr (Some ''Foo'')"
  by code_simp+

text \<open>
  Claim C4. guessTypeFromValue tries its tests in this order: a numeric value gives
  Number; an empty value that is not numeric raises; a first character that is a double
  or single quote gives String, \<open>[\<close> gives Array, \<open>{\<close> gives Object; the
  values \<open>true\<close> and \<open>false\<close> give Boolean, or Bool under \<open>short_primitives\<close>;
  a regular expression value gives RegExp; a value that contains \<open>=>\<close> gives
  Function; a value that starts with \<open>new\<close> and a space gives the identifier found by
  the search, which is the identifier that follows when there is one; every other value
  gives none. The option \<open>lower_case_primitives\<close> changes the result only from
  Number, String, Boolean, Bool or Function to its lower case, hence never for Array or
  Object. The six examples of the specification hold.
\<close>

theorem guessTypeFromValue_order:
  "guessTypeFromValue S val =
     (if is_numeric val then Inr (Some (prim S ''Number''))
      else if val = [] then Inl IndexError
      else if hd val = dquote \<or> hd val = squote then Inr (Some (prim S ''String''))
      else if hd val = CHR ''['' then Inr (Some ''Array'')
      else if hd val = CHR ''{'' then Inr (Some ''Object'')
      else if val = ''true'' \<or> val = ''false''
        then Inr (Some (prim S (if short_primitives S then ''Bool'' else ''Boolean'')))
      else if is_regexp_value val then Inr (Some ''RegExp'')
      else if \<exists>a b. val = a @ ''=>'' @ b then Inr (Some (prim S ''Function''))
      else if \<exists>r. val = ''new '' @ r then Inr (search_new val)
      else Inr None) \<and>
   (\<forall>ident rest. ident \<noteq> [] \<and> ident_start (hd ident) \<and> list_all ident_char ident \<and>
        (rest = [] \<or> \<not> ident_char (hd rest)) \<longrightarrow>
        search_new (''new '' @ ident @ rest) = Some ident) \<and>
   (guessTypeFromValue (S\<lparr>lower_case_primitives := True\<rparr>) val =
      guessTypeFromValue (S\<lparr>lower_case_primitives := False\<rparr>) val \<or>
    (\<exists>X \<in> set [''Number'', ''String'', ''Boolean'', ''Bool'', ''Function''].
       guessTypeFromValue (S\<lparr>lower_case_primitives := False\<rparr>) val = Inr (Some X) \<and>
       guessTypeFromValue (S\<lparr>lower_case_primitives := True\<rparr>) val = Inr (Some (str_lower X)))) \<and>
   guessTypeFromValue test_settings ''1'' = Inr (Some ''Number'') \<and>
   guessTypeFromValue test_settings ([dquote] @ ''a'' @ [dquote]) = Inr (Some ''String'') \<and>
   guessTypeFromValue test_settings ''true'' = Inr (Some ''Boolean'') \<and>
   guessTypeFromValue test_settings ''[1,2]'' = Inr (Some ''Array'') \<and>
   guessTypeFromValue test_settings ''{a:1}'' = Inr (Some ''Object'') \<and>
   guessTypeFromValue test_settings ''new Foo()'' = Inr (Some ''Foo'')"
proof -
  have chain: "guessTypeFromValue S val =
     (if is_numeric val then Inr (Some (prim S ''Number''))
      else if val = [] then Inl IndexError
      else if hd val = dquote \<or> hd val = squote then Inr (Some (prim S ''String''))
      else if hd val = CHR ''['' then Inr (Some ''Array'')
      else if hd val = CHR ''{'' then Inr (Some ''Object'')
      else if val = ''true'' \<or> val = ''false''
        then Inr (Some (prim S (if short_primitives S then ''Bool'' else ''Boolean'')))
      else if is_regexp_value val then Inr (Some ''RegExp'')
      else if \<exists>a b. val = a @ ''=>'' @ b then Inr (Some (prim S ''Function''))
      else if \<exists>r. val = ''new '' @ r then Inr (search_new val)
      else Inr None)"
  proof (cases "is_numeric val \<or> val = [] \<or> hd val = dquote \<or> hd val = squote \<or>
      hd val = CHR ''['' \<or> hd val = CHR ''{''")
    case True
    then show ?thesis using guess_numeric guess_empty guess_first [of val S] by auto
  next
    case False
    then show ?thesis using guess_rest [of val S] by simp
  qed
  have new: "\<forall>ident rest. ident \<noteq> [] \<and> ident_start (hd ident) \<and> list_all ident_char ident \<and>
        (rest = [] \<or> \<not> ident_char (hd rest)) \<longrightarrow>
        search_new (''new '' @ ident @ rest) = Some ident"
    using search_new_ident by blast
  show ?thesis
    using chain new guess_lowering [of S val] guess_examples by blast
qed

theorem guessTypeFromValue_order_witness:
  "guessTypeFromValue (test_settings\<lparr>lower_case_primitives := True\<rparr>) ''x => 1'' = Inr (Some ''function'') \<and>
   search_new ''new Foo()'' = Some ''Foo''"
proof -
  have a: "\<not> is_numeric ''x => 1''" by code_simp
  have b: "\<not> is_regexp_value ''x => 1''" unfolding match_RegExp_iff [symmetric] by code_simp
  have c: "\<exists>a b. ''x => 1'' = a @ ''=>'' @ b" unfolding contains_sub_iff [symmetric] by code_simp
  have d: "''Foo'' \<noteq> [] \<and> ident_start (hd ''Foo'') \<and> list_all ident_char ''Foo'' \<and>
        (''()'' = [] \<or> \<not> ident_char (hd ''()''))" by code_simp
  have e: "prim (test_settings\<lparr>lower_case_primitives := True\<rparr>) ''Function'' = ''function''"
    by code_simp
  note t = guessTypeFromValue_order [of "test_settings\<lparr>lower_case_primitives := True\<rparr>" "''x => 1''"]
  from conjunct1 [OF t] a b c e
  have "guessTypeFromValue (test_settings\<lparr>lower_case_primitives := True\<rparr>) ''x => 1''
      = Inr (Some ''function'')" by (simp add: dquote_def squote_def)
  moreover from conjunct1 [OF conjunct2 [OF t]] d have "search_new (''new '' @ ''Foo'' @ ''()'') = Some ''Foo''" by blast
  ultimately show ?thesis by simp
qed

section \<open>guessTypeFromName\<close>

lemma then_do_Inr [simp]: "then_do (Inr x) f = f x"
  by (simp add: then_do_def)

lemma then_do_Inl [simp]: "then_do (Inl e) f = Inl e"
  by (simp add: then_do_def)

lemma filter_checked_total: "filter_checked (\<lambda>x. Inr (P x)) xs = Inr (filter P xs)"
  by (induction xs) simp_all

lemma first_of_filter:
  "(case filter P xs of [] \<Rightarrow> None | x # rest \<Rightarrow> f x) = (case find P xs of None \<Rightarrow> None | Some x \<Rightarrow> f x)"
  by (induction xs) simp_all

lemma checkMatch_total:
  "checkMatch (\<lambda>r n. Inr (srch r n)) name rule = Inr (rule_applies srch name rule)"
  by (auto simp: checkMatch_def rule_applies_def split: option.splits)

lemma base_matching_total:
  "base_getMatchingNotations (\<lambda>r n. Inr (srch r n)) S name
     = Inr (filter (rule_applies srch name) (notation_map S))"
  unfolding base_getMatchingNotations_def
  using filter_checked_total [of "rule_applies srch name" "notation_map S"]
  by (simp add: checkMatch_total [abs_def])

lemma resolve_type_names:
  "resolve_type d S ''bool'' = Str ''Boolean''"
  "resolve_type d S ''function'' = Str ''Function''"
  by (simp_all add: resolve_type_def parser_settings_def)

lemma star_no_fallback:
  assumes "name \<noteq> []" "hd name = CHR ''*''"
  shows "\<not> match_is_has name" "\<not> match_callback name"
  using assms
  by (cases name; auto simp: match_is_has_def match_callback_def startswith_def callback_names_def)+

lemma guess_by_find:
  assumes "\<not> (d = Javascript \<and> startswith name ''*'' \<and> return_tag S = Some [])"
  shows "guessTypeFromName d (\<lambda>r n. Inr (srch r n)) S name =
       Inr (case find (rule_applies srch name) (notation_map S) of
              Some rule \<Rightarrow> (case rule_type rule of Some t \<Rightarrow> resolve_type d S t | None \<Rightarrow> name_fallback name)
            | None \<Rightarrow> name_fallback name)"
proof -
  let ?ms = "filter (rule_applies srch name) (notation_map S)"
  let ?rhs = "Inr (case find (rule_applies srch name) (notation_map S) of
              Some rule \<Rightarrow> (case rule_type rule of Some t \<Rightarrow> resolve_type d S t | None \<Rightarrow> name_fallback name)
            | None \<Rightarrow> name_fallback name)"
  have plain: "(case (case ?ms of [] \<Rightarrow> None | rule # rest \<Rightarrow> rule_type rule) of
          Some t \<Rightarrow> Inr (resolve_type d S t)
        | None \<Rightarrow>
            if match_is_has name then Inr (resolve_type d S ''bool'')
            else if match_callback name then Inr (resolve_type d S ''function'')
            else Inr PyFalse) = ?rhs"
    unfolding first_of_filter
    by (simp add: name_fallback_def resolve_type_names split: option.splits)
  show ?thesis
  proof (cases "d = Javascript \<and> name \<noteq> [] \<and> hd name = CHR ''*''")
    case False
    then have "getMatchingNotations d (\<lambda>r n. Inr (srch r n)) S name = Inr ?ms"
      by (cases d) (auto simp: getMatchingNotations_def base_matching_total)
    then show ?thesis
      unfolding guessTypeFromName_def using plain by simp
  next
    case True
    then have star: "startswith name ''*''"
      by (cases name) (simp_all add: startswith_def)
    with assms True have rt: "return_tag S \<noteq> Some []" by simp
    from True rt have m: "getMatchingNotations d (\<lambda>r n. Inr (srch r n)) S name = Inr (?ms @ [yield_rule S])"
      by (simp add: getMatchingNotations_def base_matching_total)
    have yt: "rule_type (yield_rule S) = None"
      by (simp add: yield_rule_def Let_def)
    have "(case ?ms @ [yield_rule S] of [] \<Rightarrow> None | rule # rest \<Rightarrow> rule_type rule)
        = (case ?ms of [] \<Rightarrow> None | rule # rest \<Rightarrow> rule_type rule)"
      by (cases ?ms) (simp_all add: yt)
    then show ?thesis
      unfolding guessTypeFromName_def m using plain by simp
  qed
qed

lemma name_boundary_iff:
  "name_boundary rest \<longleftrightarrow>
     rest = [] \<or> rest = [newline] \<or> (\<exists>c cs. rest = c # cs \<and> (isupper_ascii c \<or> c = CHR ''_''))"
  by (cases rest) (auto simp: name_boundary_def)

lemma has_lower_iff:
  "has_lower p \<longleftrightarrow> (\<exists>a c b. p = a @ c # b \<and> islower_ascii c \<and> newline \<notin> set a)"
proof
  assume "has_lower p"
  then obtain c where c: "c \<in> set (takeWhile (\<lambda>c. c \<noteq> newline) p)" "islower_ascii c"
    by (auto simp: has_lower_def list_ex_iff)
  then obtain a b where ab: "takeWhile (\<lambda>c. c \<noteq> newline) p = a @ c # b"
    by (meson split_list)
  have "p = takeWhile (\<lambda>c. c \<noteq> newline) p @ dropWhile (\<lambda>c. c \<noteq> newline) p" by simp
  then have "p = a @ c # (b @ dropWhile (\<lambda>c. c \<noteq> newline) p)" using ab by simp
  moreover have "newline \<notin> set a"
    using ab set_takeWhileD [of newline "\<lambda>c. c \<noteq> newline" p] by auto
  ultimately show "\<exists>a c b. p = a @ c # b \<and> islower_ascii c \<and> newline \<notin> set a"
    using c(2) by blast
next
  assume "\<exists>a c b. p = a @ c # b \<and> islower_ascii c \<and> newline \<notin> set a"
  then obtain a c b where p: "p = a @ c # b" "islower_ascii c" "newline \<notin> set a" by blast
  have "c \<noteq> newline" using p(2) by (auto simp: islower_ascii_def newline_def)
  have "takeWhile (\<lambda>c. c \<noteq> newline) p = a @ takeWhile (\<lambda>c. c \<noteq> newline) (c # b)"
    unfolding p(1) using p(3) by (intro takeWhile_append2) auto
  then show "has_lower p"
    using p(2) \<open>c \<noteq> newline\<close> by (auto simp: has_lower_def list_ex_iff)
qed

lemma rule_applies_prefix:
  assumes "rule_prefix rule = Some p"
  shows "rule_applies srch name rule \<longleftrightarrow>
     (\<exists>rest. name = p @ rest \<and> (has_lower p \<longrightarrow> name_boundary rest))"
  using assms by (auto simp: rule_applies_def startswith_iff)

lemma match_is_has_iff:
  "match_is_has name \<longleftrightarrow>
     (\<exists>c r. (name = ''is'' @ c # r \<or> name = ''has'' @ c # r) \<and> (isupper_ascii c \<or> c = CHR ''_''))"
proof -
  have a: "startswith name ''is'' \<and> (case drop 2 name of [] \<Rightarrow> False | c # r \<Rightarrow> isupper_ascii c \<or> c = CHR ''_'')
      \<longleftrightarrow> (\<exists>c r. name = ''is'' @ c # r \<and> (isupper_ascii c \<or> c = CHR ''_''))"
    unfolding startswith_iff by (auto split: list.splits)
  have b: "startswith name ''has'' \<and> (case drop 3 name of [] \<Rightarrow> False | c # r \<Rightarrow> isupper_ascii c \<or> c = CHR ''_'')
      \<longleftrightarrow> (\<exists>c r. name = ''has'' @ c # r \<and> (isupper_ascii c \<or> c = CHR ''_''))"
    unfolding startswith_iff by (auto split: list.splits)
  show ?thesis unfolding match_is_has_def a b by blast
qed

lemma match_callback_iff:
  "match_callback name \<longleftrightarrow>
     (\<exists>n \<in> set [''cb'', ''callback'', ''done'', ''next'', ''fn'']. name = n \<or> name = n @ [newline])"
proof -
  have "name \<noteq> [] \<and> last name = newline \<and> butlast name \<in> set callback_names
      \<longleftrightarrow> (\<exists>n \<in> set callback_names. name = n @ [newline])"
    by (metis append_butlast_last_id butlast_snoc last_snoc snoc_eq_iff_butlast)
  then show ?thesis
    unfolding match_callback_def by (auto simp: callback_names_def)
qed

lemma resolve_type_other:
  "t \<notin> set [''curlyTypes'', ''typeInfo'', ''typeTag'', ''varIdentifier'', ''fnIdentifier'',
             ''fnOpener'', ''commentCloser'', ''bool'', ''function''] \<Longrightarrow> resolve_type d S t = Str t"
  by (simp add: resolve_type_def parser_settings_def)


text \<open>
  Claim C5. With rule patterns that compile, and unless the JavaScript parser is asked
  for a generator name under an empty return tag, guessTypeFromName gives the type of
  the first rule of the table that applies to the name, looked up in the settings of the
  parser, where \<open>bool\<close> stands for Boolean and \<open>function\<close> for Function and a name
  that is no key stands for itself. When no rule applies, or the first rule that applies
  has no type, the name decides: \<open>is\<close> or \<open>has\<close> followed by an upper-case letter or
  an underscore gives Boolean; one of cb, callback, done, next and fn, alone or followed
  by one line break, gives Function; every other name gives \<open>False\<close>. A prefix rule
  applies when the name starts with the prefix and, if a lower-case letter stands
  anywhere on the first line of the prefix, the rest of the name is empty, is one line
  break, or starts with an upper-case letter or an underscore. A regex rule applies when
  the search finds its pattern.
\<close>

theorem guessTypeFromName_rules:
  "(\<not> (d = Javascript \<and> startswith name ''*'' \<and> return_tag S = Some []) \<longrightarrow>
      guessTypeFromName d (\<lambda>r n. Inr (srch r n)) S name =
        Inr (case find (rule_applies srch name) (notation_map S) of
               Some rule \<Rightarrow>
                 (case rule_type rule of Some t \<Rightarrow> resolve_type d S t | None \<Rightarrow> name_fallback name)
             | None \<Rightarrow> name_fallback name)) \<and>
   (\<forall>rule p. rule_prefix rule = Some p \<longrightarrow>
      (rule_applies srch name rule \<longleftrightarrow>
         (\<exists>rest. name = p @ rest \<and>
            ((\<exists>a c b. p = a @ c # b \<and> islower_ascii c \<and> newline \<notin> set a) \<longrightarrow>
               rest = [] \<or> rest = [newline] \<or>
               (\<exists>c cs. rest = c # cs \<and> (isupper_ascii c \<or> c = CHR ''_'')))))) \<and>
   (\<forall>rule r. rule_prefix rule = None \<and> rule_regex rule = Some r \<longrightarrow>
      (rule_applies srch name rule \<longleftrightarrow> srch r name)) \<and>
   resolve_type d S ''bool'' = Str ''Boolean'' \<and>
   resolve_type d S ''function'' = Str ''Function'' \<and>
   (\<forall>t. t \<notin> set [''curlyTypes'', ''typeInfo'', ''typeTag'', ''varIdentifier'', ''fnIdentifier'',
                  ''fnOpener'', ''commentCloser'', ''bool'', ''function''] \<longrightarrow>
        resolve_type d S t = Str t) \<and>
   name_fallback name =
     (if \<exists>c r. (name = ''is'' @ c # r \<or> name = ''has'' @ c # r) \<and> (isupper_ascii c \<or> c = CHR ''_'')
        then Str ''Boolean''
      else if \<exists>n \<in> set [''cb'', ''callback'', ''done'', ''next'', ''fn'']. name = n \<or> name = n @ [newline]
        then Str ''Function''
      else PyFalse)"
proof -
  have prefix: "\<forall>rule p. rule_prefix rule = Some p \<longrightarrow>
      (rule_applies srch name rule \<longleftrightarrow>
         (\<exists>rest. name = p @ rest \<and>
            ((\<exists>a c b. p = a @ c # b \<and> islower_ascii c \<and> newline \<notin> set a) \<longrightarrow>
               rest = [] \<or> rest = [newline] \<or>
               (\<exists>c cs. rest = c # cs \<and> (isupper_ascii c \<or> c = CHR ''_'')))))"
    using rule_applies_prefix [of _ _ srch name]
    unfolding has_lower_iff name_boundary_iff by blast
  have regex: "\<forall>rule r. rule_prefix rule = None \<and> rule_regex rule = Some r \<longrightarrow>
      (rule_applies srch name rule \<longleftrightarrow> srch r name)"
    by (simp add: rule_applies_def)
  have other: "\<forall>t. t \<notin> set [''curlyTypes'', ''typeInfo'', ''typeTag'', ''varIdentifier'', ''fnIdentifier'',
                  ''fnOpener'', ''commentCloser'', ''bool'', ''function''] \<longrightarrow>
        resolve_type d S t = Str t"
    using resolve_type_other by blast
  have fallback: "name_fallback name =
     (if \<exists>c r. (name = ''is'' @ c # r \<or> name = ''has'' @ c # r) \<and> (isupper_ascii c \<or> c = CHR ''_'')
        then Str ''Boolean''
      else if \<exists>n \<in> set [''cb'', ''callback'', ''done'', ''next'', ''fn'']. name = n \<or> name = n @ [newline]
        then Str ''Function''
      else PyFalse)"
    unfolding name_fallback_def match_is_has_iff match_callback_iff ..
  show ?thesis
    using guess_by_find [of d name S srch] prefix regex other fallback
      resolve_type_names [of d S] by blast
qed

theorem guessTypeFromName_rules_witness:
  "guessTypeFromName Javascript (\<lambda>r n. Inr False) (test_settings\<lparr>notation_map := [b_rule]\<rparr>) ''bFoo''
     = Inr (Str ''Boolean'') \<and>
   rule_applies (\<lambda>r n. False) ''bFoo'' b_rule"
proof -
  note t = guessTypeFromName_rules [of Javascript "''bFoo''" "test_settings\<lparr>notation_map := [b_rule]\<rparr>"
      "\<lambda>r n. False"]
  have h: "\<not> (Javascript = Javascript \<and> startswith ''bFoo'' ''*'' \<and>
      return_tag (test_settings\<lparr>notation_map := [b_rule]\<rparr>) = Some [])"
    by (simp add: startswith_def)
  have a: "rule_applies (\<lambda>r n. False) ''bFoo'' b_rule"
  proof -
    have "rule_prefix b_rule = Some ''b''" by (simp add: b_rule_def)
    moreover have "''bFoo'' = ''b'' @ ''Foo''" by simp
    moreover have "isupper_ascii (CHR ''F'')" by (simp add: isupper_ascii_def)
    ultimately show ?thesis
      using conjunct1 [OF conjunct2 [OF t]] by blast
  qed
  have b: "rule_type b_rule = Some ''bool''" by (simp add: b_rule_def)
  from conjunct1 [OF t] h a b
  have "guessTypeFromName Javascript (\<lambda>r n. Inr False) (test_settings\<lparr>notation_map := [b_rule]\<rparr>) ''bFoo''
     = Inr (resolve_type Javascript (test_settings\<lparr>notation_map := [b_rule]\<rparr>) ''bool'')"
    by simp
  then show ?thesis
    using a by (simp add: resolve_type_def parser_settings_def)
qed

text \<open>
  The prefix \<open>aB\<close> does not end in a lower-case letter and the name \<open>aBc\<close> starts with
  it, yet the rule does not apply, since the prefix holds a lower-case letter and no
  boundary follows it in the name: the name gets no type.
\<close>

theorem prefix_boundary_counterexample:
  "\<not> islower_ascii (last ''aB'') \<and> startswith ''aBc'' ''aB'' \<and>
   checkMatch (\<lambda>r n. Inr False) ''aBc'' aB_rule = Inr False \<and>
   guessTypeFromName Javascript (\<lambda>r n. Inr False) (test_settings\<lparr>notation_map := [aB_rule]\<rparr>) ''aBc''
     = Inr PyFalse"
  by code_simp

section \<open>The return type of a function\<close>

lemma drop_sigil_cases:
  "drop_sigil name = (if startswith name ''$'' \<or> startswith name ''_'' then drop 1 name else name)"
  by (cases name) (auto simp: drop_sigil_def startswith_def)

lemma startswith_Cons:
  "startswith s (c # p) \<longleftrightarrow> (s \<noteq> [] \<and> hd s = c \<and> startswith (tl s) p)"
  by (cases s) (auto simp: startswith_def)

lemma startswith_Nil [simp]: "startswith s []"
  by (simp add: startswith_def)

lemma match_word_set_add:
  "match_word_boundary [''set'', ''add''] name \<longleftrightarrow> mutator_name name"
  unfolding match_word_boundary_def mutator_name_def word_at_boundary_def drop_sigil_cases
  by (cases name) (auto simp: startswith_Cons drop_Suc)

lemma match_word_is_has:
  "match_word_boundary [''is'', ''has''] name \<longleftrightarrow> predicate_name name"
  unfolding match_word_boundary_def predicate_name_def word_at_boundary_def drop_sigil_cases
  by (cases name) (auto simp: startswith_Cons drop_Suc)


lemma generator_not_other:
  assumes "generator_name name"
  shows "\<not> starts_upper name" "\<not> mutator_name name" "\<not> predicate_name name"
  using assms
  by (cases name;
      auto simp: generator_name_def starts_upper_def isupper_ascii_def mutator_name_def
        predicate_name_def word_at_boundary_def startswith_Cons)+

lemma guess_name_type:
  assumes "\<not> (d = Javascript \<and> startswith name ''*'' \<and> return_tag S = Some [])"
  shows "guessTypeFromName d (\<lambda>r n. Inr (srch r n)) S name = Inr (name_type d srch S name)"
  unfolding name_type_def using guess_by_find [OF assms] .

lemma return_type_total:
  "getFunctionReturnType Javascript (\<lambda>r n. Inr (srch r n)) S name = Inr (return_type srch S name)"
proof (cases "generator_name name")
  case True
  then show ?thesis
    by (simp add: getFunctionReturnType_def return_type_def generator_name_def)
next
  case False
  then have "\<not> startswith name ''*''"
    by (cases name) (auto simp: generator_name_def startswith_def)
  then have g: "guessTypeFromName Javascript (\<lambda>r n. Inr (srch r n)) S name
      = Inr (name_type Javascript srch S name)"
    by (intro guess_name_type) simp
  from False have "getFunctionReturnType Javascript (\<lambda>r n. Inr (srch r n)) S name
      = base_getFunctionReturnType Javascript (\<lambda>r n. Inr (srch r n)) S name"
    by (auto simp: getFunctionReturnType_def generator_name_def)
  also have "\<dots> = Inr (return_type srch S name)"
    unfolding base_getFunctionReturnType_def return_type_def match_word_set_add match_word_is_has g
    using False by (simp add: starts_upper_def resolve_type_names)
  finally show ?thesis .
qed

lemma last_hd_rev: "t \<noteq> [] \<Longrightarrow> last t = hd (rev t)"
  by (simp add: hd_rev)

lemma yield_tags:
  "notation_tags (ms @ (if generator_name name then [yield_rule S] else []))
     = notation_tags ms @ yield_lines S name"
  by (auto simp: notation_tags_def yield_lines_def yield_rule_def ends_in_s_def Let_def
      split: option.splits)

lemma matching_total:
  assumes "\<not> (generator_name name \<and> return_tag S = Some [])"
  shows "getMatchingNotations Javascript (\<lambda>r n. Inr (srch r n)) S name
     = Inr (filter (rule_applies srch name) (notation_map S)
            @ (if generator_name name then [yield_rule S] else []))"
  using assms
  by (auto simp: getMatchingNotations_def base_matching_total generator_name_def)

lemma formatFunction_parts:
  assumes "cmd_dialect cmd = Javascript"
    and "param_lines Javascript (\<lambda>r n. Inr (srch r n)) (cmd_settings cmd) args = Inr params"
    and "\<not> (generator_name name \<and> return_tag (cmd_settings cmd) = Some [])"
  shows "formatFunction (\<lambda>r n. Inr (srch r n)) cmd name args =
        Inr (function_header cmd name @ params
             @ return_lines (cmd_settings cmd) (if args \<noteq> [] then strip_block False args else args)
                 (return_type srch (cmd_settings cmd) name)
             @ notation_tags (filter (rule_applies srch name) (notation_map (cmd_settings cmd)))
             @ yield_lines (cmd_settings cmd) name
             @ (if extra_tags_go_after (cmd_settings cmd) then extra_tags (cmd_settings cmd) else []))"
  unfolding formatFunction_def Let_def assms(1) assms(2) return_type_total
    matching_total [OF assms(3)] then_do_Inr yield_tags
  by simp

lemma return_lines_None: "return_lines S a PyNone = []"
  by (simp add: return_lines_def)

lemma return_lines_type:
  assumes "v \<noteq> PyNone"
  shows "\<exists>tag tail. return_lines S a v
     = [tag @ '' {${1:'' @ py_str (py_or v (Str ''[type]'')) @ ''}}'' @ tail]"
  using assms unfolding return_lines_def by (simp only: if_False) blast

lemma return_type_placeholder:
  "py_or (py_or g PyFalse) (Str ''[type]'') = py_or g (Str ''[type]'')"
  by (simp add: py_or_def py_truthy_def)

lemma return_type_not_None: "py_or g PyFalse \<noteq> PyNone"
  by (cases g) (simp_all add: py_or_def py_truthy_def)

lemma word_at_boundary_iff:
  "word_at_boundary ws name \<longleftrightarrow>
     (\<exists>pre w rest. pre \<in> {[], ''$'', ''_''} \<and> w \<in> set ws \<and> name = pre @ w @ rest \<and>
        (rest = [] \<or> rest = [newline] \<or> (\<exists>c cs. rest = c # cs \<and> (isupper_ascii c \<or> c = CHR ''_''))))"
proof -
  have eq: "\<And>pre w. startswith name (pre @ w) \<and> name_boundary (drop (length (pre @ w)) name)
      \<longleftrightarrow> (\<exists>rest. name = pre @ w @ rest \<and> name_boundary rest)"
    unfolding startswith_iff by auto
  have "word_at_boundary ws name \<longleftrightarrow>
      (\<exists>pre \<in> set [[], ''$'', ''_'']. \<exists>w \<in> set ws. \<exists>rest. name = pre @ w @ rest \<and> name_boundary rest)"
    unfolding word_at_boundary_def eq ..
  also have "\<dots> \<longleftrightarrow>
      (\<exists>pre w rest. pre \<in> {[], ''$'', ''_''} \<and> w \<in> set ws \<and> name = pre @ w @ rest \<and> name_boundary rest)"
    by (simp only: list.set Bex_def) blast
  finally show ?thesis unfolding name_boundary_iff .
qed

text \<open>
  Claim C7. In the JavaScript parser, with rule patterns that compile and parameters that
  format without an exception, and unless the name is a generator name and the return tag
  is configured as the empty string, formatFunction gives the header lines, the parameter
  lines, the return line, the tags of the rules that apply to the name, the yield line,
  and the extra tags that go last. The return line is absent for a name that starts with
  an upper-case letter, for \<open>set\<close> or \<open>add\<close> after an optional \<open>$\<close> or \<open>_\<close> and
  before a boundary, and for a generator name, which starts with \<open>*\<close>; it holds Boolean
  for \<open>is\<close> or \<open>has\<close> at such a boundary; for every other name it holds the type that
  guessTypeFromName gives, or \<open>[type]\<close> when that gives none. The yield line is present
  for a generator name only, with the tag \<open>@yields\<close> when the configured return tag ends
  in \<open>s\<close> and \<open>@yield\<close> otherwise.
\<close>

theorem formatFunction_return_type:
  "(cmd_dialect cmd = Javascript \<and>
    param_lines Javascript (\<lambda>r n. Inr (srch r n)) (cmd_settings cmd) args = Inr params \<and>
    \<not> (generator_name name \<and> return_tag (cmd_settings cmd) = Some []) \<longrightarrow>
      formatFunction (\<lambda>r n. Inr (srch r n)) cmd name args =
        Inr (function_header cmd name @ params
             @ return_lines (cmd_settings cmd) (if args \<noteq> [] then strip_block False args else args)
                 (return_type srch (cmd_settings cmd) name)
             @ notation_tags (filter (rule_applies srch name) (notation_map (cmd_settings cmd)))
             @ yield_lines (cmd_settings cmd) name
             @ (if extra_tags_go_after (cmd_settings cmd) then extra_tags (cmd_settings cmd) else []))) \<and>
   return_type srch S name =
     (if starts_upper name \<or> mutator_name name \<or> generator_name name then PyNone
      else if predicate_name name then Str ''Boolean''
      else py_or (name_type Javascript srch S name) PyFalse) \<and>
   (\<not> startswith name ''*'' \<longrightarrow>
      guessTypeFromName Javascript (\<lambda>r n. Inr (srch r n)) S name = Inr (name_type Javascript srch S name)) \<and>
   return_lines S a PyNone = [] \<and>
   (\<forall>v. v \<noteq> PyNone \<longrightarrow>
      (\<exists>tag tail. return_lines S a v
         = [tag @ '' {${1:'' @ py_str (py_or v (Str ''[type]'')) @ ''}}'' @ tail])) \<and>
   py_or g PyFalse \<noteq> PyNone \<and>
   py_or (py_or g PyFalse) (Str ''[type]'') = py_or g (Str ''[type]'') \<and>
   yield_lines S name =
     (if name \<noteq> [] \<and> hd name = CHR ''*'' then
        [(if \<exists>tag. return_tag S = Some (tag @ ''s'') then ''@yields'' else ''@yield'')
         @ '' {${1:[type]}}''
         @ (if return_description S = Some False then [] else '' ${1:[description]}'')]
      else []) \<and>
   (mutator_name name \<longleftrightarrow>
      (\<exists>pre w rest. pre \<in> {[], ''$'', ''_''} \<and> w \<in> set [''set'', ''add''] \<and> name = pre @ w @ rest \<and>
        (rest = [] \<or> rest = [newline] \<or> (\<exists>c cs. rest = c # cs \<and> (isupper_ascii c \<or> c = CHR ''_''))))) \<and>
   (predicate_name name \<longleftrightarrow>
      (\<exists>pre w rest. pre \<in> {[], ''$'', ''_''} \<and> w \<in> set [''is'', ''has''] \<and> name = pre @ w @ rest \<and>
        (rest = [] \<or> rest = [newline] \<or> (\<exists>c cs. rest = c # cs \<and> (isupper_ascii c \<or> c = CHR ''_'')))))"
proof -
  have ends: "ends_in_s (return_tag S) \<longleftrightarrow> (\<exists>tag. return_tag S = Some (tag @ ''s''))"
  proof (cases "return_tag S")
    case None
    then show ?thesis by (simp add: ends_in_s_def)
  next
    case (Some t)
    have "t \<noteq> [] \<and> last t = CHR ''s'' \<longleftrightarrow> (\<exists>tag. t = tag @ ''s'')"
      by (metis append_butlast_last_id last_snoc snoc_eq_iff_butlast)
    then show ?thesis using Some by (simp add: ends_in_s_def)
  qed
  have yield: "yield_lines S name =
     (if name \<noteq> [] \<and> hd name = CHR ''*'' then
        [(if \<exists>tag. return_tag S = Some (tag @ ''s'') then ''@yields'' else ''@yield'')
         @ '' {${1:[type]}}''
         @ (if return_description S = Some False then [] else '' ${1:[description]}'')]
      else [])"
    unfolding yield_lines_def generator_name_def ends ..
  have guess: "\<not> startswith name ''*'' \<longrightarrow>
      guessTypeFromName Javascript (\<lambda>r n. Inr (srch r n)) S name = Inr (name_type Javascript srch S name)"
    using guess_name_type [of Javascript name S srch] by simp
  have lines: "\<forall>v. v \<noteq> PyNone \<longrightarrow>
      (\<exists>tag tail. return_lines S a v
         = [tag @ '' {${1:'' @ py_str (py_or v (Str ''[type]'')) @ ''}}'' @ tail])"
    using return_lines_type by blast
  show ?thesis
    using formatFunction_parts [of cmd srch args params name] return_type_def [of srch S name]
      guess return_lines_None [of S a] lines return_type_not_None [of g]
      return_type_placeholder [of g] yield
      word_at_boundary_iff [of "[''set'', ''add'']" name, folded mutator_name_def]
      word_at_boundary_iff [of "[''is'', ''has'']" name, folded predicate_name_def]
    by blast
qed


theorem formatFunction_return_type_witness:
  "formatFunction (\<lambda>r n. Inr False) returns_command ''*gen'' []
     = Inr [''${1:[*gen description]}'', ''@yields {${1:[type]}} ${1:[description]}'']"
proof -
  note t = formatFunction_return_type [of returns_command "\<lambda>r n. False" "[]" "[]" "''*gen''"]
  have h: "cmd_dialect returns_command = Javascript \<and>
    param_lines Javascript (\<lambda>r n. Inr False) (cmd_settings returns_command) [] = Inr [] \<and>
    \<not> (generator_name ''*gen'' \<and> return_tag (cmd_settings returns_command) = Some [])"
    by code_simp
  have v: "function_header returns_command ''*gen'' @ []
             @ return_lines (cmd_settings returns_command) (if [] \<noteq> [] then strip_block False [] else [])
                 (return_type (\<lambda>r n. False) (cmd_settings returns_command) ''*gen'')
             @ notation_tags (filter (rule_applies (\<lambda>r n. False) ''*gen'')
                 (notation_map (cmd_settings returns_command)))
             @ yield_lines (cmd_settings returns_command) ''*gen''
             @ (if extra_tags_go_after (cmd_settings returns_command)
                then extra_tags (cmd_settings returns_command) else [])
          = [''${1:[*gen description]}'', ''@yields {${1:[type]}} ${1:[description]}'']"
    by code_simp
  from conjunct1 [OF t] h show ?thesis unfolding v by blast
qed

text \<open>
  With the return tag configured as the empty string, the lookup of the last character
  of the tag raises for a generator, and parse gives nothing for the declaration, while
  a function that is no generator gets its lines, with the tag \<open>@return\<close>.
\<close>

theorem generator_empty_return_tag:
  "getMatchingNotations Javascript (\<lambda>r n. Inr False) (cmd_settings empty_tag_command) ''*gen''
     = Inl IndexError \<and>
   parse_body (\<lambda>r n. Inr False) empty_tag_command False ''function* gen() {'' = Inl IndexError \<and>
   parse (\<lambda>r n. Inr False) empty_tag_command False ''function* gen() {'' = None \<and>
   parse (\<lambda>r n. Inr False) empty_tag_command False ''function gen() {''
     = Some [''${1:[gen description]}'', ''@return {${1:[type]}} ${1:[description]}'']"
  by code_simp

section \<open>An empty default value\<close>

lemma eq_not_space: "\<not> isspace (CHR ''='')"
  by code_simp

lemma dot_not_space: "\<not> isspace (CHR ''.'')"
  by code_simp

lemma dropWhile_space_all: "list_all isspace ws \<Longrightarrow> dropWhile isspace ws = []"
  by (induction ws) simp_all

lemma split_assign_empty:
  assumes "CHR ''='' \<notin> set n" "list_all isspace ws"
  shows "snd (split_assign (n @ CHR ''='' # ws)) = Some []"
  using assms
proof (induction n)
  case Nil
  then show ?case
    by (simp add: startswith_def eq_not_space dropWhile_space_all)
next
  case (Cons c n)
  show ?case
  proof (cases "startswith (dropWhile isspace (c # n @ CHR ''='' # ws)) ''=''")
    case False
    then show ?thesis using Cons by (simp add: split_beta)
  next
    case True
    have "dropWhile isspace ((c # n) @ CHR ''='' # ws) = CHR ''='' # ws"
    proof (cases "list_all isspace (c # n)")
      case True
      then have "dropWhile isspace ((c # n) @ CHR ''='' # ws) = dropWhile isspace (CHR ''='' # ws)"
        by (intro dropWhile_append2) (auto simp: list_all_iff)
      then show ?thesis by (simp add: eq_not_space)
    next
      case False
      then have ne: "dropWhile isspace (c # n) \<noteq> []"
        by (simp add: list_all_iff dropWhile_eq_Nil_conv)
      then have "hd (dropWhile isspace (c # n)) \<in> set (c # n)"
        by (metis hd_in_set set_dropWhileD)
      then have "hd (dropWhile isspace (c # n)) \<noteq> CHR ''=''"
        using Cons.prems(1) by auto
      moreover have "dropWhile isspace ((c # n) @ CHR ''='' # ws)
          = dropWhile isspace (c # n) @ CHR ''='' # ws"
        using ne by (metis dropWhile_append1 dropWhile_eq_Nil_conv)
      ultimately have "\<not> startswith (dropWhile isspace ((c # n) @ CHR ''='' # ws)) ''=''"
        using ne by (cases "dropWhile isspace (c # n)") (auto simp: startswith_def)
      with True show ?thesis by simp
    qed
    then show ?thesis
      using True Cons.prems(2) by (simp add: dropWhile_space_all)
  qed
qed

lemma empty_default_split:
  assumes "empty_default t"
  shows "snd (split_assign t) = Some []"
proof -
  let ?n = "takeWhile (\<lambda>c. c \<noteq> CHR ''='') t"
  let ?r = "dropWhile (\<lambda>c. c \<noteq> CHR ''='') t"
  from assms have "?r \<noteq> []" by (auto simp: empty_default_def dropWhile_eq_Nil_conv)
  moreover have "hd ?r = CHR ''=''"
    using \<open>?r \<noteq> []\<close> hd_dropWhile [of "\<lambda>c. c \<noteq> CHR ''=''" t] by auto
  ultimately have r: "?r = CHR ''='' # drop 1 ?r" by (cases ?r) auto
  have "t = ?n @ ?r" by simp
  then have t: "t = ?n @ CHR ''='' # drop 1 ?r" using r by metis
  have "CHR ''='' \<notin> set ?n" using set_takeWhileD by fastforce
  moreover have "list_all isspace (drop 1 ?r)" using assms by (simp add: empty_default_def)
  ultimately have "snd (split_assign (?n @ CHR ''='' # drop 1 ?r)) = Some []"
    by (rule split_assign_empty)
  then show ?thesis using t by metis
qed

lemma split_assign_prefix: "\<exists>r. t = fst (split_assign t) @ r"
  by (induction t) (auto simp: split_beta)

lemma name_part_rest:
  "startswith (fst (split_assign t)) ''...'' \<longleftrightarrow> startswith t ''...''"
proof
  assume "startswith (fst (split_assign t)) ''...''"
  then show "startswith t ''...''"
    using split_assign_prefix [of t] unfolding startswith_iff by (metis append.assoc)
next
  assume "startswith t ''...''"
  then obtain r where "t = ''...'' @ r" unfolding startswith_iff by blast
  then show "startswith (fst (split_assign t)) ''...''"
    by (simp add: startswith_def dot_not_space split_beta)
qed

lemma not_numeric_empty: "\<not> is_numeric []"
  by code_simp

lemma js_getArgType_empty:
  assumes "empty_default t" "\<not> rest_parameter t"
  shows "js_getArgType S t = Inl IndexError"
proof -
  obtain n v where nv: "split_assign t = (n, v)" by (cases "split_assign t")
  with empty_default_split [OF assms(1)] have v: "v = Some []" by simp
  from nv name_part_rest [of t] assms(2) have "\<not> startswith n ''...''"
    by (simp add: rest_parameter_def)
  then show ?thesis
    unfolding js_getArgType_def nv v
    by (simp add: guess_empty [OF not_numeric_empty])
qed


lemma map_checked_raises:
  assumes "x \<in> set xs" "f x = Inl IndexError" "\<And>y e. f y = Inl e \<Longrightarrow> e = IndexError"
  shows "map_checked f xs = Inl IndexError"
  using assms(1)
proof (induction xs)
  case Nil
  then show ?case by simp
next
  case (Cons y ys)
  show ?case
  proof (cases "f y")
    case (Inl e)
    then show ?thesis using assms(3) [of y e] by simp
  next
    case (Inr v)
    with Cons assms(2) have "map_checked f ys = Inl IndexError" by auto
    then show ?thesis using Inr by simp
  qed
qed

lemma map_checked_error:
  assumes "map_checked f xs = Inl e" "\<And>y e. f y = Inl e \<Longrightarrow> e = IndexError"
  shows "e = IndexError"
  using assms(1)
proof (induction xs arbitrary: e)
  case Nil
  then show ?case by simp
next
  case (Cons y ys)
  show ?case
  proof (cases "f y")
    case (Inl e')
    with Cons.prems assms(2) [of y e'] show ?thesis by simp
  next
    case (Inr v)
    show ?thesis
    proof (cases "map_checked f ys")
      case (Inl e')
      with Cons.prems Inr Cons.IH [of e'] show ?thesis by simp
    next
      case (Inr w)
      with Cons.prems \<open>f y = Inr v\<close> show ?thesis by simp
    qed
  qed
qed

lemma guess_error:
  assumes "guessTypeFromValue S val = Inl e"
  shows "e = IndexError"
proof (cases "is_numeric val \<or> val \<noteq> []")
  case False
  then show ?thesis using assms guess_empty [of val S] by auto
next
  case True
  then have "\<exists>r. guessTypeFromValue S val = Inr r"
    by (cases val) (auto simp: guessTypeFromValue_def Let_def)
  with assms show ?thesis by auto
qed

lemma js_getArgType_error:
  assumes "js_getArgType S t = Inl e"
  shows "e = IndexError"
  using assms guess_error
  by (auto simp: js_getArgType_def split: prod.splits if_splits option.splits)

lemma js_getArgInfo_raises:
  assumes "t \<in> set (sub_items a)" "empty_default t" "\<not> rest_parameter t"
  shows "js_getArgInfo S a = Inl IndexError"
proof -
  let ?pre = "if is_braced a then ''options.'' else []"
  let ?f = "\<lambda>subItem. then_do (js_getArgType S subItem) (\<lambda>t. Inr (t, ?pre @ js_getArgName subItem))"
  have "?f t = Inl IndexError"
    using js_getArgType_empty [OF assms(2,3)] by simp
  moreover have "\<And>y e. ?f y = Inl e \<Longrightarrow> e = IndexError"
    using js_getArgType_error by (auto simp: then_do_def split: sum.splits)
  ultimately have "map_checked ?f (sub_items a) = Inl IndexError"
    using assms(1) by (intro map_checked_raises [of t]) auto
  then show ?thesis
    by (simp add: js_getArgInfo_def sub_items_def Let_def)
qed

lemma js_getArgInfo_error:
  assumes "js_getArgInfo S a = Inl e"
  shows "e = IndexError"
proof -
  let ?pre = "if is_braced a then ''options.'' else []"
  let ?f = "\<lambda>subItem. then_do (js_getArgType S subItem) (\<lambda>t. Inr (t, ?pre @ js_getArgName subItem))"
  have "\<And>y e. ?f y = Inl e \<Longrightarrow> e = IndexError"
    using js_getArgType_error by (auto simp: then_do_def split: sum.splits)
  moreover have "map_checked ?f (sub_items a) = Inl e"
    using assms by (simp add: js_getArgInfo_def sub_items_def Let_def)
  ultimately show ?thesis by (rule map_checked_error [rotated])
qed

lemma arg_tokens_sub_items:
  "arg_tokens args = concat (map sub_items (splitByCommas (strip_block False args)))"
  unfolding arg_tokens_def sub_items_def ..

lemma parseArgs_raises:
  assumes "t \<in> set (arg_tokens args)" "empty_default t" "\<not> rest_parameter t"
  shows "parseArgs Javascript S (strip_block False args) = Inl IndexError"
proof -
  from assms(1) obtain a where a: "a \<in> set (splitByCommas (strip_block False args))"
      "t \<in> set (sub_items a)"
    unfolding arg_tokens_sub_items by auto
  have "getArgInfo Javascript S a = Inl IndexError"
    using js_getArgInfo_raises [OF a(2) assms(2,3)] by (simp add: getArgInfo_def)
  moreover have "\<And>y e. getArgInfo Javascript S y = Inl e \<Longrightarrow> e = IndexError"
    using js_getArgInfo_error by (simp add: getArgInfo_def)
  ultimately have "map_checked (getArgInfo Javascript S) (splitByCommas (strip_block False args))
      = Inl IndexError"
    using a(1) by (intro map_checked_raises [of a]) auto
  then show ?thesis by (simp add: parseArgs_def)
qed

lemma arg_tokens_Nil: "arg_tokens [] = []"
  by (simp add: arg_tokens_def splitByCommas_def)

lemma formatFunction_raises:
  assumes "cmd_dialect cmd = Javascript"
    and "t \<in> set (arg_tokens args)" "empty_default t" "\<not> rest_parameter t"
  shows "formatFunction rs cmd name args = Inl IndexError"
proof -
  from assms(2) have "args \<noteq> []" using arg_tokens_Nil by auto
  then have "param_lines Javascript rs (cmd_settings cmd) args = Inl IndexError"
    using parseArgs_raises [OF assms(2-4)] by (simp add: param_lines_def)
  then show ?thesis
    by (simp add: formatFunction_def Let_def assms(1))
qed

lemma generateSnippet_None:
  "generateSnippet cmd None inline =
     (if inline then '' $0 */''
      else [newline] @ '' *'' @ indentSpaces cmd @ ''${0:'' @ cmd_trailingString cmd @ ''}''
           @ [newline] @ commentCloser (cmd_dialect cmd)
           @ (if newline_after_block (cmd_settings cmd) then [newline] else []))"
  by (simp add: generateSnippet_def truthy_def createSnippet_def)

text \<open>
  Claim C10. When the JavaScript parser recognises a function in a line and a token of
  its argument list has an empty default value and is no rest parameter, the type
  inference for the default value raises IndexError on the empty value, the exception
  leaves the body of parse, parse gives \<open>None\<close>, and the command writes the placeholder
  comment.
\<close>

theorem empty_default_degrades:
  "cmd_dialect cmd = Javascript \<and> parseFunction Javascript line = Some (name, args) \<and>
   t \<in> set (arg_tokens args) \<and> empty_default t \<and> \<not> rest_parameter t \<longrightarrow>
     js_getArgType (cmd_settings cmd) t = Inl IndexError \<and>
     parse_body rs cmd inline line = Inl IndexError \<and>
     parse rs cmd inline line = None \<and>
     document rs cmd False line =
       [newline] @ '' *'' @ indentSpaces cmd @ ''${0:'' @ cmd_trailingString cmd @ ''}''
       @ [newline] @ '' */''
       @ (if newline_after_block (cmd_settings cmd) then [newline] else [])"
proof (intro impI, elim conjE)
  assume d: "cmd_dialect cmd = Javascript"
    and pf: "parseFunction Javascript line = Some (name, args)"
    and t: "t \<in> set (arg_tokens args)" "empty_default t" "\<not> rest_parameter t"
  have a: "js_getArgType (cmd_settings cmd) t = Inl IndexError"
    using js_getArgType_empty [OF t(2,3)] .
  have b: "parse_body rs cmd inline line = Inl IndexError" for inline
    using formatFunction_raises [OF d t] pf by (simp add: parse_body_def d)
  have c: "parse rs cmd inline line = None" for inline
    using b by (simp add: parse_def)
  have "document rs cmd False line = generateSnippet cmd None False"
    using c by (simp add: document_def)
  then show "js_getArgType (cmd_settings cmd) t = Inl IndexError \<and>
     parse_body rs cmd inline line = Inl IndexError \<and>
     parse rs cmd inline line = None \<and>
     document rs cmd False line =
       [newline] @ '' *'' @ indentSpaces cmd @ ''${0:'' @ cmd_trailingString cmd @ ''}''
       @ [newline] @ '' */''
       @ (if newline_after_block (cmd_settings cmd) then [newline] else [])"
    using a b c by (simp add: generateSnippet_None d commentCloser_def)
qed

theorem empty_default_degrades_witness:
  "parse (\<lambda>r n. Inr False) test_command False ''function f(a=) {'' = None \<and>
   document (\<lambda>r n. Inr False) test_command False ''function f(a=) {''
     = [newline] @ '' * ${0:}'' @ [newline] @ '' */''"
proof -
  note t = empty_default_degrades [of test_command "''function f(a=) {''" "''f''" "''a=''" "''a=''"
      "\<lambda>r n. Inr False" False]
  have h: "cmd_dialect test_command = Javascript \<and>
      parseFunction Javascript ''function f(a=) {'' = Some (''f'', ''a='') \<and>
      ''a='' \<in> set (arg_tokens ''a='') \<and> empty_default ''a='' \<and> \<not> rest_parameter ''a=''"
    by code_simp
  have i: "indentSpaces test_command = '' ''" "cmd_trailingString test_command = []"
      "newline_after_block (cmd_settings test_command) = False"
    by code_simp+
  from t h show ?thesis unfolding i by simp
qed

text \<open>
  A rest parameter with an empty default value: the type of a rest parameter is given
  before the default value is looked at, and the function gets its lines.
\<close>

theorem rest_parameter_counterexample:
  "parseFunction Javascript ''function f(...a=) {'' = Some (''f'', ''...a='') \<and>
   ''...a='' \<in> set (arg_tokens ''...a='') \<and> empty_default ''...a='' \<and>
   parse (\<lambda>r n. Inr False) test_command False ''function f(...a=) {''
     = Some [''${1:[f description]}'',
             ''@param {${1:...[type]}} a ${1:[description]}'',
             ''@return {${1:[type]}}  ${1:[description]}'']"
  by code_simp

section \<open>parse\<close>

text \<open>
  Claim C3. parse gives a value for every line: \<open>None\<close> in simple mode, and otherwise
  the result of matching and formatting, with \<open>None\<close> in place of every exception that
  parseFunction, parseVar, formatFunction or formatVar raise. When parse gives \<open>None\<close>,
  the command writes the placeholder comment: one line with the placeholder of index 0
  that holds the trailing description, which may be empty, or the bare placeholder in
  inline mode.
\<close>

theorem parse_never_raises:
  "parse rs cmd inline line =
     (if simple_mode (cmd_settings cmd) then None
      else (case parse_body rs cmd inline line of Inl e \<Rightarrow> None | Inr out \<Rightarrow> out)) \<and>
   (\<forall>e. parse_body rs cmd inline line = Inl e \<longrightarrow> parse rs cmd inline line = None) \<and>
   (parse rs cmd inline line = None \<longrightarrow>
      document rs cmd inline line =
        (if inline then '' $0 */''
         else [newline] @ '' *'' @ indentSpaces cmd @ ''${0:'' @ cmd_trailingString cmd @ ''}''
              @ [newline] @ commentCloser (cmd_dialect cmd)
              @ (if newline_after_block (cmd_settings cmd) then [newline] else [])))"
proof -
  have a: "parse rs cmd inline line =
     (if simple_mode (cmd_settings cmd) then None
      else (case parse_body rs cmd inline line of Inl e \<Rightarrow> None | Inr out \<Rightarrow> out))"
    by (simp add: parse_def)
  have b: "\<forall>e. parse_body rs cmd inline line = Inl e \<longrightarrow> parse rs cmd inline line = None"
    by (auto simp: parse_def)
  have c: "parse rs cmd inline line = None \<longrightarrow>
      document rs cmd inline line =
        (if inline then '' $0 */''
         else [newline] @ '' *'' @ indentSpaces cmd @ ''${0:'' @ cmd_trailingString cmd @ ''}''
              @ [newline] @ commentCloser (cmd_dialect cmd)
              @ (if newline_after_block (cmd_settings cmd) then [newline] else []))"
    unfolding document_def using generateSnippet_None [of cmd inline] by simp
  from a b c show ?thesis by blast
qed

theorem parse_never_raises_witness:
  "parse_body (\<lambda>r n. Inr False) x_rule_command False ''function f(xSum) {'' = Inl AttributeError \<and>
   parse (\<lambda>r n. Inr False) x_rule_command False ''function f(xSum) {'' = None \<and>
   document (\<lambda>r n. Inr False) x_rule_command False ''function f(xSum) {''
     = [newline] @ '' * ${0:sums}'' @ [newline] @ '' */''"
proof -
  note t = parse_never_raises [of "\<lambda>r n. Inr False" x_rule_command False "''function f(xSum) {''"]
  have h: "parse_body (\<lambda>r n. Inr False) x_rule_command False ''function f(xSum) {'' = Inl AttributeError"
    by code_simp
  have n: "parse (\<lambda>r n. Inr False) x_rule_command False ''function f(xSum) {'' = None"
    using conjunct1 [OF conjunct2 [OF t]] h by blast
  have i: "indentSpaces x_rule_command = '' ''" "cmd_trailingString x_rule_command = ''sums''"
      "newline_after_block (cmd_settings x_rule_command) = False"
      "commentCloser (cmd_dialect x_rule_command) = '' */''"
    by code_simp+
  from conjunct2 [OF conjunct2 [OF t]] n
  have "document (\<lambda>r n. Inr False) x_rule_command False ''function f(xSum) {''
     = [newline] @ '' * ${0:sums}'' @ [newline] @ '' */''"
    unfolding i by simp
  with h n show ?thesis by blast
qed

section \<open>getDefinition\<close>

lemma count_brackets:
  "foldl countBrackets ob (brackets s) = ob + bracket_balance s"
proof (induction s arbitrary: ob)
  case Nil
  then show ?case by (simp add: brackets_def bracket_balance_def)
next
  case (Cons c s)
  have "foldl countBrackets ob (brackets (c # s))
      = foldl countBrackets (if c = CHR ''('' then ob + 1 else if c = CHR '')'' then ob - 1 else ob)
          (brackets s)"
    by (simp add: brackets_def countBrackets_def)
  also have "\<dots> = (if c = CHR ''('' then ob + 1 else if c = CHR '')'' then ob - 1 else ob)
      + bracket_balance s"
    using Cons.IH by simp
  also have "\<dots> = ob + bracket_balance (c # s)"
    by (simp add: bracket_balance_def)
  finally show ?case .
qed

lemma loop_rest:
  assumes "defn \<noteq> []"
  shows "getDefinition_loop d content n pos ob defn
     = defn @ concat (gather ob (map strip_comments (take n (lines_from content pos))))"
  using assms
proof (induction n arbitrary: pos ob defn)
  case 0
  then show ?case by simp
next
  case (Suc n)
  show ?case
  proof (cases "read_line content pos")
    case None
    then show ?thesis by (simp add: lines_from.simps [of content pos])
  next
    case (Some raw)
    have ls: "lines_from content pos = raw # lines_from content (pos + length raw + 1)"
      using Some by (simp add: lines_from.simps [of content pos])
    have sfb: "searchForBrackets d defn (strip_comments raw) = strip_comments raw"
      using Suc.prems by (simp add: searchForBrackets_def)
    show ?thesis
    proof (cases "ob + bracket_balance (strip_comments raw) = 0")
      case True
      then show ?thesis
        using Some by (simp add: ls sfb count_brackets Let_def)
    next
      case False
      have "defn @ strip_comments raw \<noteq> []" using Suc.prems by simp
      from Suc.IH [OF this] False Some show ?thesis
        by (simp add: ls sfb count_brackets Let_def)
    qed
  qed
qed

lemma from_opener_Nil: "from_opener d [] = []"
  by (cases d) (simp_all add: from_opener_def fnOpener_start_def)

lemma loop_first:
  "getDefinition_loop d content (Suc n) pos 0 []
     = concat (gathered d (map strip_comments (take (Suc n) (lines_from content pos))))"
proof (cases "read_line content pos")
  case None
  then show ?thesis
    by (simp add: lines_from.simps [of content pos])
next
  case (Some raw)
  have ls: "lines_from content pos = raw # lines_from content (pos + length raw + 1)"
    using Some by (simp add: lines_from.simps [of content pos])
  have sfb: "searchForBrackets d [] (strip_comments raw) = from_opener d (strip_comments raw)"
    by (simp add: searchForBrackets_def from_opener_def)
  show ?thesis
  proof (cases "bracket_balance (from_opener d (strip_comments raw)) = 0")
    case True
    then show ?thesis
      using Some by (simp add: ls sfb count_brackets Let_def)
  next
    case False
    then have "strip_comments raw \<noteq> []"
      using from_opener_Nil [of d] by (auto simp: bracket_balance_def)
    from loop_rest [OF this] False Some show ?thesis
      by (simp add: ls sfb count_brackets Let_def)
  qed
qed

lemma getDefinition_gathered:
  "getDefinition d content pos
     = concat (gathered d (map strip_comments (take 25 (lines_from content pos))))"
  unfolding getDefinition_def maxLines_def
  using loop_first [of d content 24 pos] by simp


lemma slash_not_newline: "CHR ''/'' \<noteq> newline" "CHR ''*'' \<noteq> newline"
  by (simp_all add: newline_def)

lemma line_pass:
  "CHR ''/'' \<notin> set x \<Longrightarrow> strip_line_comments_from False (x @ y) = x @ strip_line_comments_from False y"
  by (induction x) (auto simp: startswith_def)

lemma line_inside: "newline \<notin> set b \<Longrightarrow> strip_line_comments_from True b = []"
  by (induction b) auto

lemma line_slash:
  "\<not> startswith y ''/'' \<Longrightarrow>
     strip_line_comments_from False (CHR ''/'' # y) = CHR ''/'' # strip_line_comments_from False y"
  by (cases y) (auto simp: startswith_def)

lemma line_comment_removed:
  assumes "CHR ''/'' \<notin> set a" "newline \<notin> set b"
  shows "strip_line_comments_from False (a @ ''//'' @ b) = a"
proof -
  have "strip_line_comments_from False (''//'' @ b) = []"
    using line_inside [OF assms(2)] by (simp add: startswith_def slash_not_newline)
  then show ?thesis using line_pass [OF assms(1), of "''//'' @ b"] by simp
qed

lemma block_pass:
  "CHR ''/'' \<notin> set x \<Longrightarrow> strip_block g (x @ y) = x @ strip_block g y"
  by (induction x) (auto simp: startswith_def)

lemma starts_close: "startswith s ''*/'' \<Longrightarrow> CHR ''/'' \<in> set s"
  by (cases s; cases "tl s") (auto simp: startswith_def)

lemma no_slash_close: "CHR ''/'' \<notin> set s \<Longrightarrow> find_last_close s = None"
proof (induction s)
  case Nil
  then show ?case by simp
next
  case (Cons c s)
  then have "\<not> startswith (c # s) ''*/''" using starts_close by blast
  with Cons show ?case by simp
qed

lemma last_close_at:
  assumes "CHR ''/'' \<notin> set b" "CHR ''/'' \<notin> set c"
  shows "find_last_close (b @ ''*/'' @ c) = Some (length b)"
  using assms(1)
proof (induction b)
  case Nil
  have "find_last_close (CHR ''/'' # c) = None"
    using no_slash_close [OF assms(2)] by (simp add: startswith_def)
  then show ?case by (simp add: startswith_def)
next
  case (Cons x b)
  then show ?case by simp
qed

lemma block_comment_removed:
  assumes "CHR ''/'' \<notin> set a" "CHR ''/'' \<notin> set b" "CHR ''/'' \<notin> set c" "newline \<notin> set b"
  shows "strip_block True (a @ ''/*'' @ b @ ''*/'' @ c) = a @ c"
proof -
  let ?c1 = "takeWhile (\<lambda>x. x \<noteq> newline) c"
  have tw: "takeWhile (\<lambda>x. x \<noteq> newline) (b @ ''*/'' @ c) = b @ ''*/'' @ ?c1"
    using assms(4) by (subst takeWhile_append2) (auto simp: slash_not_newline)
  have "CHR ''/'' \<notin> set ?c1" using assms(3) set_takeWhileD by fastforce
  then have fc: "find_close True (b @ ''*/'' @ ?c1) = Some (length b)"
    using last_close_at [OF assms(2)] by (simp add: find_close_def)
  have dr: "drop (length b + 3) (CHR ''*'' # b @ CHR ''*'' # CHR ''/'' # c) = c"
    by (simp add: eval_nat_numeral)
  have "strip_block True (''/*'' @ b @ ''*/'' @ c) = strip_block True c"
    using fc tw by (simp add: startswith_def dr)
  also have "\<dots> = c" using block_pass [OF assms(3), of True "[]"] by simp
  finally show ?thesis using block_pass [OF assms(1), of True "''/*'' @ b @ ''*/'' @ c"] by simp
qed

lemma strip_comments_line:
  assumes "CHR ''/'' \<notin> set a" "newline \<notin> set b"
  shows "strip_comments (a @ ''//'' @ b) = a"
  unfolding strip_comments_def line_comment_removed [OF assms]
  using block_pass [OF assms(1), of True "[]"] by simp

lemma strip_comments_block:
  assumes "CHR ''/'' \<notin> set a" "CHR ''/'' \<notin> set b" "CHR ''/'' \<notin> set c" "newline \<notin> set b"
  shows "strip_comments (a @ ''/*'' @ b @ ''*/'' @ c) = a @ c"
proof -
  have c: "strip_line_comments_from False c = c"
    using line_pass [OF assms(3), of "[]"] by simp
  have "\<not> startswith c ''/''" using assms(3) by (cases c) (auto simp: startswith_def)
  then have "strip_line_comments_from False (CHR ''/'' # c) = CHR ''/'' # c"
    using line_slash [of c] c by simp
  then have "strip_line_comments_from False ((b @ ''*'') @ CHR ''/'' # c) = (b @ ''*'') @ CHR ''/'' # c"
    using line_pass [of "b @ ''*''" "CHR ''/'' # c"] assms(2) by simp
  then have "strip_line_comments_from False (CHR ''/'' # CHR ''*'' # b @ ''*/'' @ c)
      = CHR ''/'' # CHR ''*'' # b @ ''*/'' @ c"
    using line_slash [of "CHR ''*'' # b @ ''*/'' @ c"] line_pass [of "''*''" "b @ ''*/'' @ c"]
    by (simp add: startswith_def)
  then have "strip_line_comments_from False (a @ ''/*'' @ b @ ''*/'' @ c) = a @ ''/*'' @ b @ ''*/'' @ c"
    using line_pass [OF assms(1), of "''/*'' @ b @ ''*/'' @ c"] by simp
  then show ?thesis
    unfolding strip_comments_def using block_comment_removed [OF assms] by simp
qed

lemma strip_comments_plain:
  assumes "CHR ''/'' \<notin> set l"
  shows "strip_comments l = l"
  unfolding strip_comments_def
  using line_pass [OF assms, of "[]"] block_pass [OF assms, of True "[]"] by simp

lemma gather_length: "length (gather ob ls) \<le> length ls"
  by (induction ls arbitrary: ob) auto

lemma gathered_length: "length (gathered d ls) \<le> length ls"
  using gather_length by (cases ls) (auto intro: le_SucI)

lemma opener_start_least:
  assumes "opener_start line = Some k"
  shows "k < length line \<and> opener_at (drop k line) \<and> (\<forall>j<k. \<not> opener_at (drop j line))"
  using assms
proof (induction line arbitrary: k)
  case Nil
  then show ?case by simp
next
  case (Cons c cs)
  show ?case
  proof (cases "opener_at (c # cs)")
    case True
    with Cons.prems show ?thesis by simp
  next
    case False
    with Cons.prems obtain k' where k': "opener_start cs = Some k'" "k = Suc k'" by auto
    from Cons.IH [OF k'(1)] False show ?thesis
      unfolding k'(2) by (auto simp: less_Suc_eq_0_disj)
  qed
qed


lemma four_lines_examples:
  "getDefinition Javascript four_lines 0
     = ''function foo(bar,             baz,             quux             ) {''"
  "parseFunction Javascript (getDefinition Javascript four_lines 0)
     = Some (''foo'', ''bar,             baz,             quux             '')"
  "parseArgs Javascript test_settings ''bar,             baz,             quux             ''
     = Inr [(None, ''bar''), (None, ''baz''), (None, ''quux'')]"
  "from_opener Javascript ''(function (foo, bar) {'' = ''function (foo, bar) {''"
  by code_simp+

text \<open>
  Claim C6. getDefinition gives the concatenation of the first lines among the at most 25
  successive lines read from the position on, each with its comments removed, up to and
  with the first line at whose end the count of open parentheses is zero; the count of
  the first line starts at the leftmost match of the function opener of the JavaScript
  parser, and at the start of the line in the CoffeeScript parser. Removing the comments
  removes a line comment to the end of the line and a block comment that is closed on
  the line, and leaves a line without a slash as it is. The four lines of the example
  give one declaration with the arguments bar, baz and quux.
\<close>

theorem getDefinition_gathers:
  "getDefinition d content pos
     = concat (gathered d (map strip_comments (take 25 (lines_from content pos)))) \<and>
   length (gathered d (map strip_comments (take 25 (lines_from content pos)))) \<le> 25 \<and>
   lines_from content pos =
     (case read_line content pos of
        None \<Rightarrow> []
      | Some l \<Rightarrow> l # lines_from content (pos + length l + 1)) \<and>
   (\<forall>a b. CHR ''/'' \<notin> set a \<and> newline \<notin> set b \<longrightarrow> strip_comments (a @ ''//'' @ b) = a) \<and>
   (\<forall>a b c. CHR ''/'' \<notin> set a \<and> CHR ''/'' \<notin> set b \<and> CHR ''/'' \<notin> set c \<and> newline \<notin> set b \<longrightarrow>
      strip_comments (a @ ''/*'' @ b @ ''*/'' @ c) = a @ c) \<and>
   (\<forall>l. CHR ''/'' \<notin> set l \<longrightarrow> strip_comments l = l) \<and>
   (\<forall>line k. opener_start line = Some k \<longrightarrow>
      from_opener Javascript line = drop k line \<and> k < length line \<and> opener_at (drop k line) \<and>
      (\<forall>j<k. \<not> opener_at (drop j line))) \<and>
   (\<forall>line. opener_start line = None \<longrightarrow> from_opener Javascript line = line) \<and>
   (\<forall>line. from_opener Coffee line = line) \<and>
   from_opener Javascript ''(function (foo, bar) {'' = ''function (foo, bar) {'' \<and>
   getDefinition Javascript four_lines 0
     = ''function foo(bar,             baz,             quux             ) {'' \<and>
   parseFunction Javascript (getDefinition Javascript four_lines 0)
     = Some (''foo'', ''bar,             baz,             quux             '') \<and>
   parseArgs Javascript test_settings ''bar,             baz,             quux             ''
     = Inr [(None, ''bar''), (None, ''baz''), (None, ''quux'')]"
proof -
  have len: "length (gathered d (map strip_comments (take 25 (lines_from content pos)))) \<le> 25"
    using gathered_length [of d "map strip_comments (take 25 (lines_from content pos))"] by simp
  have line: "\<forall>a b. CHR ''/'' \<notin> set a \<and> newline \<notin> set b \<longrightarrow> strip_comments (a @ ''//'' @ b) = a"
    using strip_comments_line by blast
  have block: "\<forall>a b c. CHR ''/'' \<notin> set a \<and> CHR ''/'' \<notin> set b \<and> CHR ''/'' \<notin> set c \<and> newline \<notin> set b \<longrightarrow>
      strip_comments (a @ ''/*'' @ b @ ''*/'' @ c) = a @ c"
    using strip_comments_block by blast
  have plain: "\<forall>l. CHR ''/'' \<notin> set l \<longrightarrow> strip_comments l = l"
    using strip_comments_plain by blast
  have opener: "\<forall>line k. opener_start line = Some k \<longrightarrow>
      from_opener Javascript line = drop k line \<and> k < length line \<and> opener_at (drop k line) \<and>
      (\<forall>j<k. \<not> opener_at (drop j line))"
    using opener_start_least by (simp add: from_opener_def fnOpener_start_def)
  have none: "\<forall>line. opener_start line = None \<longrightarrow> from_opener Javascript line = line"
    by (simp add: from_opener_def fnOpener_start_def)
  have coffee: "\<forall>line. from_opener Coffee line = line"
    by (simp add: from_opener_def fnOpener_start_def)
  show ?thesis
    using getDefinition_gathered [of d content pos] len lines_from.simps [of content pos]
      line block plain opener none coffee four_lines_examples
    by blast
qed

theorem getDefinition_gathers_witness:
  "strip_comments ''foo(a, // first'' = ''foo(a, '' \<and>
   strip_comments ''foo(/* first */ a)'' = ''foo( a)'' \<and>
   strip_comments ''foo(a)'' = ''foo(a)'' \<and>
   from_opener Javascript ''  (function (a) {'' = ''function (a) {''"
proof -
  note t = getDefinition_gathers [of Javascript "[]" 0]
  note line = conjunct1 [OF conjunct2 [OF conjunct2 [OF conjunct2 [OF t]]]]
  note block = conjunct1 [OF conjunct2 [OF conjunct2 [OF conjunct2 [OF conjunct2 [OF t]]]]]
  note plain = conjunct1 [OF conjunct2 [OF conjunct2 [OF conjunct2 [OF conjunct2 [OF conjunct2 [OF t]]]]]]
  note opener = conjunct1 [OF conjunct2 [OF conjunct2 [OF conjunct2 [OF conjunct2 [OF conjunct2
      [OF conjunct2 [OF t]]]]]]]
  have "CHR ''/'' \<notin> set ''foo(a, '' \<and> newline \<notin> set '' first''"
    by (simp add: newline_def)
  with line have a: "strip_comments (''foo(a, '' @ ''//'' @ '' first'') = ''foo(a, ''" by blast
  have "CHR ''/'' \<notin> set ''foo('' \<and> CHR ''/'' \<notin> set '' first '' \<and> CHR ''/'' \<notin> set '' a)'' \<and>
      newline \<notin> set '' first ''"
    by (simp add: newline_def)
  with block have b: "strip_comments (''foo('' @ ''/*'' @ '' first '' @ ''*/'' @ '' a)'') = ''foo('' @ '' a)''"
    by blast
  have "CHR ''/'' \<notin> set ''foo(a)''" by simp
  with plain have c: "strip_comments ''foo(a)'' = ''foo(a)''" by blast
  have "opener_start ''  (function (a) {'' = Some 3" by code_simp
  with opener have "from_opener Javascript ''  (function (a) {'' = drop 3 ''  (function (a) {''"
    by blast
  then have d: "from_opener Javascript ''  (function (a) {'' = ''function (a) {''" by simp
  from a b c d show ?thesis by simp
qed

end
